theory Spec2Isabelle
  imports Complex_Main "HOL-Library.Char_ord" "HOL-Library.List_Lexorder"
begin

section \<open>Values of the fish survey fetcher\<close>

text \<open>
  The module \<^verbatim>\<open>lakemapper/fish_survey_fetcher.py\<close> works on decoded JSON documents.
  A document is what \<^verbatim>\<open>json.loads\<close> can return: \<^verbatim>\<open>None\<close>, a bool, an int, a float,
  a string, a list or a dict. Python's \<^verbatim>\<open>None\<close> is \<open>JNull\<close> everywhere below. A dict is an
  association list in insertion order; a decoded document has no key twice, and lookup
  takes the first binding. Python ints are unbounded, hence \<open>int\<close>. Floats are kept
  abstract (the type variable \<open>'f\<close>): every float operation the module performs is a field
  of the record \<open>py_ops\<close>, so nothing below depends on how a double rounds.
\<close>

datatype 'f json =
    JNull
  | JBool bool
  | JInt int
  | JFloat 'f
  | JStr string
  | JList "'f json list"
  | JDict "(string \<times> 'f json) list"

text \<open>The exceptions that the modelled code can meet.\<close>

datatype exn =
    AttributeError
  | TypeError
  | OverflowError
  | IndexError
  | UnicodeDecodeError

text \<open>
  The interpreter's primitives that are not written out: \<^verbatim>\<open>float(s)\<close> on a string
  (\<open>None\<close> is \<^verbatim>\<open>ValueError\<close>), \<^verbatim>\<open>float(i)\<close> on an int (\<open>None\<close> is \<^verbatim>\<open>OverflowError\<close>),
  float addition, subtraction, comparison with an int and the zero test, \<^verbatim>\<open>list.sort\<close> on
  two or more records whose sort keys are not all strings, and \<^verbatim>\<open>str(e)\<close> of an exception.
\<close>

record 'f py_ops =
  float_of_str :: "string \<Rightarrow> 'f option"
  float_of_int :: "int \<Rightarrow> 'f option"
  float_add :: "'f \<Rightarrow> 'f \<Rightarrow> 'f"
  float_sub :: "'f \<Rightarrow> 'f \<Rightarrow> 'f"
  float_gt_int :: "'f \<Rightarrow> int \<Rightarrow> bool"
  float_is_zero :: "'f \<Rightarrow> bool"
  sort_other :: "'f json list \<Rightarrow> exn + 'f json list"
  exn_text :: "exn \<Rightarrow> string"

text \<open>Truth value of a document, as \<^verbatim>\<open>if x:\<close> and \<^verbatim>\<open>x and y\<close> test it.\<close>

fun truthy :: "'f py_ops \<Rightarrow> 'f json \<Rightarrow> bool" where
  "truthy ops JNull = False"
| "truthy ops (JBool b) = b"
| "truthy ops (JInt i) = (i \<noteq> 0)"
| "truthy ops (JFloat x) = (\<not> float_is_zero ops x)"
| "truthy ops (JStr s) = (s \<noteq> [])"
| "truthy ops (JList xs) = (xs \<noteq> [])"
| "truthy ops (JDict d) = (d \<noteq> [])"

text \<open>
  \<^verbatim>\<open>d.get(k, default)\<close> on a dict. On a document that is not a dict, \<^verbatim>\<open>.get\<close> raises
  \<^verbatim>\<open>AttributeError\<close>: that is the last branch of each \<open>case\<close> on a record below.
\<close>

definition dict_get :: "(string \<times> 'f json) list \<Rightarrow> string \<Rightarrow> 'f json \<Rightarrow> 'f json" where
  "dict_get d k dflt = (case map_of d k of None \<Rightarrow> dflt | Some v \<Rightarrow> v)"

text \<open>\<^verbatim>\<open>d[k] = v\<close>: an existing key keeps its place, a new key goes to the end.\<close>

fun dict_set :: "(string \<times> 'f json) list \<Rightarrow> string \<Rightarrow> 'f json \<Rightarrow> (string \<times> 'f json) list" where
  "dict_set [] k v = [(k, v)]"
| "dict_set ((k', v') # d) k v = (if k' = k then (k, v) # d else (k', v') # dict_set d k v)"

text \<open>Iteration \<^verbatim>\<open>for x in c\<close>: a dict yields its keys, a string its characters.\<close>

fun py_iter :: "'f json \<Rightarrow> exn + 'f json list" where
  "py_iter (JList xs) = Inr xs"
| "py_iter (JStr s) = Inr (map (\<lambda>c. JStr [c]) s)"
| "py_iter (JDict d) = Inr (map (\<lambda>kv. JStr (fst kv)) d)"
| "py_iter x = Inl TypeError"

text \<open>Substring test of \<^verbatim>\<open>pat in s\<close> on strings.\<close>

fun contains_str :: "string \<Rightarrow> string \<Rightarrow> bool" where
  "contains_str pat [] = (pat = [])"
| "contains_str pat (c # cs) = (take (length pat) (c # cs) = pat \<or> contains_str pat cs)"

text \<open>\<^verbatim>\<open>k in x\<close> for a string \<open>k\<close>.\<close>

fun py_in :: "string \<Rightarrow> 'f json \<Rightarrow> exn + bool" where
  "py_in k (JDict d) = Inr (k \<in> set (map fst d))"
| "py_in k (JList xs) = Inr (JStr k \<in> set xs)"
| "py_in k (JStr s) = Inr (contains_str k s)"
| "py_in k x = Inl TypeError"

text \<open>\<^verbatim>\<open>x[k]\<close> for a string \<open>k\<close> that is known to be in \<open>x\<close>.\<close>

fun py_subscript :: "'f json \<Rightarrow> string \<Rightarrow> exn + 'f json" where
  "py_subscript (JDict d) k = Inr (dict_get d k JNull)"
| "py_subscript x k = Inl TypeError"

section \<open>parse\_fish\_survey\_data\<close>

text \<open>
  \<^verbatim>\<open>s.get('fishCatchSummaries') and len(s.get('fishCatchSummaries', [])) > 0\<close>
  on a dict \<open>s\<close>: a falsy value stops the conjunction, \<^verbatim>\<open>len\<close> of a true number or of
  \<^verbatim>\<open>True\<close> raises \<^verbatim>\<open>TypeError\<close>.
\<close>

definition has_catch :: "'f py_ops \<Rightarrow> (string \<times> 'f json) list \<Rightarrow> exn + bool" where
  "has_catch ops d =
     (let c = dict_get d ''fishCatchSummaries'' JNull in
      if \<not> truthy ops c then Inr False
      else (case c of
              JList xs \<Rightarrow> Inr True
            | JStr s \<Rightarrow> Inr True
            | JDict e \<Rightarrow> Inr True
            | _ \<Rightarrow> Inl TypeError))"

text \<open>
  The list comprehension of lines 133-138 and 148-153, for the survey type \<open>ty\<close>:
  every element answers \<^verbatim>\<open>.get\<close> or the comprehension raises.
\<close>

fun surveys_of_type :: "'f py_ops \<Rightarrow> string \<Rightarrow> 'f json list \<Rightarrow> exn + 'f json list" where
  "surveys_of_type ops ty [] = Inr []"
| "surveys_of_type ops ty (s # ss) =
     (case s of
        JDict d \<Rightarrow>
          (if dict_get d ''surveyType'' JNull = JStr ty then
             (case has_catch ops d of
                Inl e \<Rightarrow> Inl e
              | Inr b \<Rightarrow>
                  (case surveys_of_type ops ty ss of
                     Inl e \<Rightarrow> Inl e
                   | Inr r \<Rightarrow> Inr (if b then s # r else r)))
           else surveys_of_type ops ty ss)
      | _ \<Rightarrow> Inl AttributeError)"

text \<open>The sort key \<^verbatim>\<open>x.get('surveyDate', '')\<close> of a record of the filtered list.\<close>

fun date_key :: "'f json \<Rightarrow> 'f json" where
  "date_key (JDict d) = dict_get d ''surveyDate'' (JStr [])"
| "date_key x = JNull"

fun is_str :: "'f json \<Rightarrow> bool" where
  "is_str (JStr s) = True"
| "is_str x = False"

fun str_of :: "'f json \<Rightarrow> string" where
  "str_of (JStr s) = s"
| "str_of x = []"

text \<open>
  \<^verbatim>\<open>xs.sort(key=..., reverse=True)\<close>: the interpreter reverses the list, sorts it
  stably in ascending key order, and reverses it again. String keys are compared
  lexicographically by character; a string is a list of bytes here, and on UTF-8 the
  order of the bytes is the order of the code points that Python compares. A list of at
  most one record needs no comparison.
\<close>

definition sort_by_date_desc :: "'f py_ops \<Rightarrow> 'f json list \<Rightarrow> exn + 'f json list" where
  "sort_by_date_desc ops xs =
     (if list_all (\<lambda>x. is_str (date_key x)) xs
        then Inr (rev (sort_key (\<lambda>x. str_of (date_key x)) (rev xs)))
      else if length xs \<le> 1 then Inr xs
      else sort_other ops xs)"

text \<open>
  Lines 140-144 and 155-159: sort the candidates and take element 0. A sort keeps the
  length of the list, so \<^verbatim>\<open>IndexError\<close> stands only for a \<open>sort_other\<close> that would not.
\<close>

definition most_recent :: "'f py_ops \<Rightarrow> 'f json list \<Rightarrow> exn + 'f json" where
  "most_recent ops cands =
     (if cands = [] then Inr JNull
      else (case sort_by_date_desc ops cands of
              Inl e \<Rightarrow> Inl e
            | Inr [] \<Rightarrow> Inl IndexError
            | Inr (x # xs) \<Rightarrow> Inr x))"

text \<open>Lines 163-167: the first survey with any catch entry.\<close>

fun first_with_catch :: "'f py_ops \<Rightarrow> 'f json list \<Rightarrow> exn + 'f json" where
  "first_with_catch ops [] = Inr JNull"
| "first_with_catch ops (s # ss) =
     (case s of
        JDict d \<Rightarrow>
          (case has_catch ops d of
             Inl e \<Rightarrow> Inl e
           | Inr b \<Rightarrow> (if b then Inr s else first_with_catch ops ss))
      | _ \<Rightarrow> Inl AttributeError)"

text \<open>Lines 129-167: the selected survey, \<open>JNull\<close> when there is none.\<close>

definition select_survey :: "'f py_ops \<Rightarrow> 'f json list \<Rightarrow> exn + 'f json" where
  "select_survey ops surveys =
     (case surveys_of_type ops ''Standard Survey'' surveys of
        Inl e \<Rightarrow> Inl e
      | Inr standard_surveys \<Rightarrow>
          (case most_recent ops standard_surveys of
             Inl e \<Rightarrow> Inl e
           | Inr sel1 \<Rightarrow>
               if truthy ops sel1 then Inr sel1
               else (case surveys_of_type ops ''Targeted Survey'' surveys of
                       Inl e \<Rightarrow> Inl e
                     | Inr targeted_surveys \<Rightarrow>
                         (case most_recent ops targeted_surveys of
                            Inl e \<Rightarrow> Inl e
                          | Inr sel2 \<Rightarrow>
                              if truthy ops sel2 then Inr sel2
                              else first_with_catch ops surveys))))"

text \<open>
  Lines 196-211: \<^verbatim>\<open>float(value)\<close> under \<^verbatim>\<open>except (ValueError, TypeError)\<close>, skipped for
  \<^verbatim>\<open>None\<close>. \<^verbatim>\<open>OverflowError\<close> (an int too large for a float) is not caught here.
\<close>

fun coerce_float :: "'f py_ops \<Rightarrow> 'f json \<Rightarrow> exn + 'f json" where
  "coerce_float ops JNull = Inr JNull"
| "coerce_float ops (JBool b) =
     (case float_of_int ops (if b then 1 else 0) of
        None \<Rightarrow> Inl OverflowError | Some x \<Rightarrow> Inr (JFloat x))"
| "coerce_float ops (JInt i) =
     (case float_of_int ops i of None \<Rightarrow> Inl OverflowError | Some x \<Rightarrow> Inr (JFloat x))"
| "coerce_float ops (JFloat x) = Inr (JFloat x)"
| "coerce_float ops (JStr s) =
     (case float_of_str ops s of None \<Rightarrow> Inr JNull | Some x \<Rightarrow> Inr (JFloat x))"
| "coerce_float ops (JList xs) = Inr JNull"
| "coerce_float ops (JDict d) = Inr JNull"

text \<open>The number a document stands for in arithmetic: \<^verbatim>\<open>bool\<close> is a subtype of \<^verbatim>\<open>int\<close>.\<close>

fun as_num :: "'f json \<Rightarrow> (int + 'f) option" where
  "as_num (JInt i) = Some (Inl i)"
| "as_num (JBool b) = Some (Inl (if b then 1 else 0))"
| "as_num (JFloat x) = Some (Inr x)"
| "as_num x = None"

text \<open>\<^verbatim>\<open>total_fish += count\<close>.\<close>

definition py_add :: "'f py_ops \<Rightarrow> 'f json \<Rightarrow> 'f json \<Rightarrow> exn + 'f json" where
  "py_add ops a b =
     (case (as_num a, as_num b) of
        (Some (Inl i), Some (Inl j)) \<Rightarrow> Inr (JInt (i + j))
      | (Some (Inl i), Some (Inr y)) \<Rightarrow>
          (case float_of_int ops i of
             None \<Rightarrow> Inl OverflowError | Some x \<Rightarrow> Inr (JFloat (float_add ops x y)))
      | (Some (Inr x), Some (Inl j)) \<Rightarrow>
          (case float_of_int ops j of
             None \<Rightarrow> Inl OverflowError | Some y \<Rightarrow> Inr (JFloat (float_add ops x y)))
      | (Some (Inr x), Some (Inr y)) \<Rightarrow> Inr (JFloat (float_add ops x y))
      | _ \<Rightarrow> Inl TypeError)"

text \<open>Lines 179-211: the species entry built from one catch entry.\<close>

definition species_info :: "'f py_ops \<Rightarrow> 'f json \<Rightarrow> exn + 'f json" where
  "species_info ops c =
     (case c of
        JDict d \<Rightarrow>
          (case coerce_float ops (dict_get d ''averageWeight'' JNull) of
             Inl e \<Rightarrow> Inl e
           | Inr avg \<Rightarrow>
               (case coerce_float ops (dict_get d ''totalWeight'' JNull) of
                  Inl e \<Rightarrow> Inl e
                | Inr tot \<Rightarrow>
                    (case coerce_float ops (dict_get d ''CPUE'' JNull) of
                       Inl e \<Rightarrow> Inl e
                     | Inr cpue \<Rightarrow>
                         Inr (JDict
                           [(''species_name'', dict_get d ''species'' (JStr ''Unknown'')),
                            (''count'', dict_get d ''totalCatch'' (JInt 0)),
                            (''length_stats'',
                               JDict [(''average'', JNull), (''minimum'', JNull),
                                      (''maximum'', JNull)]),
                            (''weight_stats'',
                               JDict [(''average'', avg), (''total'', tot),
                                      (''quartile'', dict_get d ''quartileWeight'' JNull)]),
                            (''gear'', dict_get d ''gear'' (JStr ''Unknown'')),
                            (''cpue'', cpue)]))))
      | _ \<Rightarrow> Inl AttributeError)"

text \<open>\<^verbatim>\<open>species_info['count']\<close> of an entry built above.\<close>

definition count_of :: "'f json \<Rightarrow> 'f json" where
  "count_of sp = (case sp of JDict d \<Rightarrow> dict_get d ''count'' JNull | _ \<Rightarrow> JNull)"

text \<open>
  Lines 178-214: the loop over the catch entries, carrying the species list built so
  far and the running total.
\<close>

fun catch_loop ::
  "'f py_ops \<Rightarrow> 'f json list \<Rightarrow> 'f json \<Rightarrow> 'f json list \<Rightarrow> exn + ('f json list \<times> 'f json)" where
  "catch_loop ops acc total_fish [] = Inr (acc, total_fish)"
| "catch_loop ops acc total_fish (c # cs) =
     (case species_info ops c of
        Inl e \<Rightarrow> Inl e
      | Inr sp \<Rightarrow>
          (case py_add ops total_fish (count_of sp) of
             Inl e \<Rightarrow> Inl e
           | Inr total_fish' \<Rightarrow> catch_loop ops (acc @ [sp]) total_fish' cs))"

text \<open>The dict of lines 104-110.\<close>

definition zero_fields :: "(string \<times> 'f json) list" where
  "zero_fields =
     [(''survey_date'', JNull), (''survey_method'', JNull), (''survey_type'', JNull),
      (''fish_species'', JList []), (''total_fish_caught'', JInt 0)]"

text \<open>Lines 169-216: the summary of the selected survey.\<close>

definition summarize :: "'f py_ops \<Rightarrow> 'f json \<Rightarrow> exn + (string \<times> 'f json) list" where
  "summarize ops sel =
     (case sel of
        JDict d \<Rightarrow>
          (let hdr = [(''survey_date'', dict_get d ''surveyDate'' JNull),
                      (''survey_method'', dict_get d ''surveyMethod'' JNull),
                      (''survey_type'', dict_get d ''surveyType'' JNull)] in
           if ''fishCatchSummaries'' \<in> set (map fst d) then
             (case py_iter (dict_get d ''fishCatchSummaries'' JNull) of
                Inl e \<Rightarrow> Inl e
              | Inr entries \<Rightarrow>
                  (case catch_loop ops [] (JInt 0) entries of
                     Inl e \<Rightarrow> Inl e
                   | Inr (species, total_fish) \<Rightarrow>
                       Inr (hdr @ [(''fish_species'', JList species),
                                   (''total_fish_caught'', total_fish)])))
           else Inr (hdr @ [(''fish_species'', JList []), (''total_fish_caught'', JInt 0)]))
      | _ \<Rightarrow> Inl AttributeError)"

text \<open>Lines 113-222: the body of the \<^verbatim>\<open>try\<close> block.\<close>

definition parse_body :: "'f py_ops \<Rightarrow> 'f json \<Rightarrow> exn + (string \<times> 'f json) list" where
  "parse_body ops raw_data =
     (case py_in ''result'' raw_data of
        Inl e \<Rightarrow> Inl e
      | Inr present \<Rightarrow>
          if \<not> present then Inr zero_fields
          else (case py_subscript raw_data ''result'' of
                  Inl e \<Rightarrow> Inl e
                | Inr result \<Rightarrow>
                    (case result of
                       JDict r \<Rightarrow>
                         (if ''surveys'' \<in> set (map fst r)
                             \<and> truthy ops (dict_get r ''surveys'' JNull) then
                            (case py_iter (dict_get r ''surveys'' JNull) of
                               Inl e \<Rightarrow> Inl e
                             | Inr surveys \<Rightarrow>
                                 (case select_survey ops surveys of
                                    Inl e \<Rightarrow> Inl e
                                  | Inr sel \<Rightarrow>
                                      if truthy ops sel then summarize ops sel
                                      else Inr zero_fields))
                          else Inr zero_fields)
                     | _ \<Rightarrow> Inr zero_fields)))"

text \<open>
  Lines 94-235: \<^verbatim>\<open>except Exception\<close> turns every exception of the body into the
  zero-value dict with the extra key \<^verbatim>\<open>parse_error\<close>. The function returns a dict on
  every path, so its result is the association list itself.
\<close>

definition parse_fish_survey_data :: "'f py_ops \<Rightarrow> 'f json \<Rightarrow> (string \<times> 'f json) list" where
  "parse_fish_survey_data ops raw_data =
     (case parse_body ops raw_data of
        Inr parsed_data \<Rightarrow> parsed_data
      | Inl e \<Rightarrow> zero_fields @ [(''parse_error'', JStr (exn_text ops e))])"

section \<open>The world outside the module\<close>

text \<open>
  One transport call (\<^verbatim>\<open>requests.get\<close>) ends in a response with a status code and a
  body that \<^verbatim>\<open>response.json()\<close> decodes or not (\<open>None\<close> is \<^verbatim>\<open>json.JSONDecodeError\<close>), in
  \<^verbatim>\<open>requests.exceptions.Timeout\<close>, or in another \<^verbatim>\<open>RequestException\<close> such as a connection
  error.
\<close>

datatype 'f outcome =
    Response int "'f json option"
  | Timeout
  | RequestError

text \<open>
  What reading a cache file gives: \<^verbatim>\<open>open\<close> or \<^verbatim>\<open>read\<close> fails with \<^verbatim>\<open>IOError\<close>; the bytes
  are not text in the file encoding, so that \<^verbatim>\<open>f.read()\<close> inside \<^verbatim>\<open>json.load\<close> raises
  \<^verbatim>\<open>UnicodeDecodeError\<close> (a \<^verbatim>\<open>ValueError\<close>); the text is not JSON
  (\<^verbatim>\<open>json.JSONDecodeError\<close>); or the text is a JSON document. \<^verbatim>\<open>json.dump\<close> followed by
  \<^verbatim>\<open>json.load\<close> gives the document back, so a file written by the module holds the
  document itself.
\<close>

datatype 'f content =
    Unreadable
  | Undecodable
  | Malformed
  | Document "'f json"

datatype 'f pause = Backoff nat | Pace 'f

text \<open>
  The state the module reads and writes: the clock (\<^verbatim>\<open>time.time()\<close>), the cache directory
  (per key, the modification time and content of \<^verbatim>\<open>fish_survey_<key>.json\<close>), whether a
  cache file can be opened for writing, the outcome of the n-th transport call for a
  key, the number of transport calls made so far for a key, and the log of
  \<^verbatim>\<open>time.sleep\<close> calls, latest first. The cache directory itself exists, so that
  \<^verbatim>\<open>_ensure_cache_dir\<close> and \<^verbatim>\<open>get_cache_stats\<close> change nothing and do not raise. How the
  clock moves is not fixed: the theorems hold for every clock value.
\<close>

record 'f world =
  now :: "'f"
  files :: "string \<Rightarrow> ('f \<times> 'f content) option"
  writable :: "string \<Rightarrow> bool"
  net :: "string \<Rightarrow> nat \<Rightarrow> 'f outcome"
  ncalls :: "string \<Rightarrow> nat"
  slept :: "'f pause list"

definition sleep :: "'f pause \<Rightarrow> 'f world \<Rightarrow> 'f world" where
  "sleep p w = w\<lparr>slept := p # slept w\<rparr>"

definition count_call :: "string \<Rightarrow> 'f world \<Rightarrow> 'f world" where
  "count_call k w = w\<lparr>ncalls := (ncalls w)(k := Suc (ncalls w k))\<rparr>"

section \<open>fetch\_fish\_survey\_data\<close>

text \<open>\<^verbatim>\<open>config.MAX_RETRIES\<close>.\<close>

definition MAX_RETRIES :: nat where
  "MAX_RETRIES = 3"

text \<open>
  Lines 44-91: the loop \<^verbatim>\<open>for attempt in range(MAX_RETRIES)\<close>, entered at \<open>attempt\<close>.
  The result \<open>JNull\<close> is \<^verbatim>\<open>None\<close>.
\<close>

function fetch_attempts :: "nat \<Rightarrow> string \<Rightarrow> nat \<Rightarrow> 'f world \<Rightarrow> 'f json \<times> 'f world" where
  "fetch_attempts max_retries k attempt w =
     (if max_retries \<le> attempt then (JNull, w)
      else
        (case net w k (ncalls w k) of
           Response status body \<Rightarrow>
             (if status = 200 then
                (case body of
                   Some data \<Rightarrow> (data, count_call k w)
                 | None \<Rightarrow> (JNull, count_call k w))
              else if status = 404 then (JNull, count_call k w)
              else if attempt < max_retries - 1
                then fetch_attempts max_retries k (Suc attempt) (sleep (Backoff 1) (count_call k w))
              else (JNull, count_call k w))
         | Timeout \<Rightarrow>
             (if attempt < max_retries - 1
                then fetch_attempts max_retries k (Suc attempt) (sleep (Backoff 2) (count_call k w))
              else (JNull, count_call k w))
         | RequestError \<Rightarrow>
             (if attempt < max_retries - 1
                then fetch_attempts max_retries k (Suc attempt) (sleep (Backoff 1) (count_call k w))
              else (JNull, count_call k w))))"
  by pat_completeness auto
termination
  by (relation "measure (\<lambda>(m, k, a, w). m - a)") auto

definition fetch_fish_survey_data :: "string \<Rightarrow> 'f world \<Rightarrow> 'f json \<times> 'f world" where
  "fetch_fish_survey_data dowlknum w = fetch_attempts MAX_RETRIES dowlknum 0 w"

section \<open>The cache\<close>

text \<open>
  Lines 412-441. \<^verbatim>\<open>except (json.JSONDecodeError, IOError)\<close> catches a failed read and
  text that is not JSON; \<^verbatim>\<open>UnicodeDecodeError\<close> is neither and leaves the function.
\<close>

definition load_from_cache :: "'f py_ops \<Rightarrow> 'f world \<Rightarrow> string \<Rightarrow> exn + 'f json" where
  "load_from_cache ops w dowlknum =
     (case files w dowlknum of
        None \<Rightarrow> Inr JNull
      | Some (mtime, c) \<Rightarrow>
          if float_gt_int ops (float_sub ops (now w) mtime) (24 * 60 * 60) then Inr JNull
          else (case c of
                  Unreadable \<Rightarrow> Inr JNull
                | Undecodable \<Rightarrow> Inl UnicodeDecodeError
                | Malformed \<Rightarrow> Inr JNull
                | Document data \<Rightarrow> Inr data))"

text \<open>Lines 443-461: a failed write is logged and changes nothing.\<close>

definition save_to_cache :: "'f world \<Rightarrow> string \<Rightarrow> 'f json \<Rightarrow> 'f world" where
  "save_to_cache w dowlknum data =
     (if data = JNull then w
      else if writable w dowlknum
        then w\<lparr>files := (files w)(dowlknum \<mapsto> (now w, Document data))\<rparr>
      else w)"

section \<open>get\_fish\_survey\_summary\<close>

text \<open>The dict of lines 260-269.\<close>

definition default_data :: "string \<Rightarrow> 'f \<Rightarrow> 'f json" where
  "default_data dowlknum t =
     JDict [(''dowlknum'', JStr dowlknum), (''survey_date'', JNull),
            (''survey_method'', JNull), (''survey_type'', JNull),
            (''fish_species'', JList []), (''total_fish_caught'', JInt 0),
            (''fetch_timestamp'', JFloat t), (''no_data_available'', JBool True)]"

text \<open>Lines 255-287: what happens after a cache miss, or with the cache disabled.\<close>

definition fetch_and_store ::
  "'f py_ops \<Rightarrow> string \<Rightarrow> bool \<Rightarrow> 'f world \<Rightarrow> 'f json \<times> 'f world" where
  "fetch_and_store ops dowlknum use_cache w =
     (case fetch_fish_survey_data dowlknum w of
        (raw_data, w1) \<Rightarrow>
          let survey_data =
                (if raw_data = JNull then default_data dowlknum (now w1)
                 else JDict (dict_set
                        (dict_set (parse_fish_survey_data ops raw_data)
                           ''dowlknum'' (JStr dowlknum))
                        ''fetch_timestamp'' (JFloat (now w1))))
          in (survey_data,
              if use_cache then save_to_cache w1 dowlknum survey_data else w1))"

text \<open>Lines 238-287.\<close>

definition get_fish_survey_summary ::
  "'f py_ops \<Rightarrow> string \<Rightarrow> bool \<Rightarrow> 'f world \<Rightarrow> (exn + 'f json) \<times> 'f world" where
  "get_fish_survey_summary ops dowlknum use_cache w =
     (if use_cache then
        (case load_from_cache ops w dowlknum of
           Inl e \<Rightarrow> (Inl e, w)
         | Inr cached_data \<Rightarrow>
             if cached_data \<noteq> JNull then (Inr cached_data, w)
             else (case fetch_and_store ops dowlknum use_cache w of
                     (d, w') \<Rightarrow> (Inr d, w')))
      else (case fetch_and_store ops dowlknum use_cache w of (d, w') \<Rightarrow> (Inr d, w')))"

section \<open>batch\_fetch\_fish\_surveys\<close>

text \<open>
  Lines 380-397: the sequential loop. Nothing catches an exception of a single key
  here, so it ends the whole batch.
\<close>

fun sequential_loop ::
  "'f py_ops \<Rightarrow> 'f \<Rightarrow> bool \<Rightarrow> (string \<rightharpoonup> 'f json) \<Rightarrow> string list \<Rightarrow> 'f world
     \<Rightarrow> (exn + (string \<rightharpoonup> 'f json)) \<times> 'f world" where
  "sequential_loop ops delay use_cache results [] w = (Inr results, w)"
| "sequential_loop ops delay use_cache results (k # ks) w =
     (case get_fish_survey_summary ops k use_cache w of
        (Inl e, w1) \<Rightarrow> (Inl e, w1)
      | (Inr survey_data, w1) \<Rightarrow>
          sequential_loop ops delay use_cache (results(k \<mapsto> survey_data)) ks
            (if ks \<noteq> [] then sleep (Pace delay) w1 else w1))"

text \<open>
  Lines 313-341: the units of work of the pool, each run to its end, in the order of
  the list of their keys. An exception of a unit becomes \<^verbatim>\<open>None\<close> for its key.
\<close>

fun parallel_loop ::
  "'f py_ops \<Rightarrow> 'f \<Rightarrow> bool \<Rightarrow> (string \<rightharpoonup> 'f json) \<Rightarrow> string list \<Rightarrow> 'f world
     \<Rightarrow> (string \<rightharpoonup> 'f json) \<times> 'f world" where
  "parallel_loop ops delay use_cache results [] w = (results, w)"
| "parallel_loop ops delay use_cache results (k # ks) w =
     (case get_fish_survey_summary ops k use_cache (sleep (Pace delay) w) of
        (Inl e, w1) \<Rightarrow> parallel_loop ops delay use_cache (results(k \<mapsto> JNull)) ks w1
      | (Inr survey_data, w1) \<Rightarrow>
          parallel_loop ops delay use_cache (results(k \<mapsto> survey_data)) ks w1)"

text \<open>
  Lines 290-347. The pool runs one unit of work per element of \<open>dowlknums\<close>; the schedule
  \<open>sched\<close> lists the positions of \<open>dowlknums\<close> in the order in which their units run, and
  is a permutation of the positions. The pool size decides only which schedules can
  happen.
\<close>

definition batch_fetch_fish_surveys_parallel ::
  "'f py_ops \<Rightarrow> nat list \<Rightarrow> string list \<Rightarrow> 'f \<Rightarrow> bool \<Rightarrow> 'f world
     \<Rightarrow> (string \<rightharpoonup> 'f json) \<times> 'f world" where
  "batch_fetch_fish_surveys_parallel ops sched dowlknums delay use_cache w =
     parallel_loop ops delay use_cache Map.empty (map (\<lambda>i. dowlknums ! i) sched) w"

text \<open>Lines 350-397.\<close>

definition batch_fetch_fish_surveys ::
  "'f py_ops \<Rightarrow> nat list \<Rightarrow> string list \<Rightarrow> 'f \<Rightarrow> bool \<Rightarrow> bool \<Rightarrow> 'f world
     \<Rightarrow> (exn + (string \<rightharpoonup> 'f json)) \<times> 'f world" where
  "batch_fetch_fish_surveys ops sched dowlknums delay use_parallel use_cache w =
     (if use_parallel \<and> length dowlknums > 1 then
        (case batch_fetch_fish_surveys_parallel ops sched dowlknums delay use_cache w of
           (results, w') \<Rightarrow> (Inr results, w'))
      else sequential_loop ops delay use_cache Map.empty dowlknums w)"

section \<open>Vocabulary of the specification\<close>

text \<open>
  A transport outcome is transient when the module retries after it: a timeout, another
  request error, or a status other than 200 and 404. The pause before the retry is two
  seconds after a timeout and one second otherwise.
\<close>

definition is_transient :: "'f outcome \<Rightarrow> bool" where
  "is_transient r =
     (case r of Response status body \<Rightarrow> status \<noteq> 200 \<and> status \<noteq> 404 | _ \<Rightarrow> True)"

definition backoff_secs :: "'f outcome \<Rightarrow> nat" where
  "backoff_secs r = (case r of Timeout \<Rightarrow> 2 | _ \<Rightarrow> 1)"

text \<open>A cache entry for the key exists and its age at clock value \<open>t\<close> is within 24 hours.\<close>

definition fresh_at :: "'f py_ops \<Rightarrow> 'f world \<Rightarrow> string \<Rightarrow> 'f \<Rightarrow> bool" where
  "fresh_at ops w k t =
     (case files w k of
        None \<Rightarrow> False
      | Some (mtime, c) \<Rightarrow> \<not> float_gt_int ops (float_sub ops t mtime) (24 * 60 * 60))"

section \<open>An instance for evaluation\<close>

text \<open>
  The theorems below hold for every choice of the primitives. To evaluate the model on
  examples, floats are taken to be rationals with exact arithmetic, \<^verbatim>\<open>float(s)\<close> reads a
  plain unsigned decimal literal and rejects every other string, and \<^verbatim>\<open>str(e)\<close> is the
  name of the exception class.
\<close>

fun digits_value :: "nat \<Rightarrow> string \<Rightarrow> nat option" where
  "digits_value acc [] = Some acc"
| "digits_value acc (c # cs) =
     (if CHR ''0'' \<le> c \<and> c \<le> CHR ''9''
        then digits_value (10 * acc + (of_char c - 48)) cs
      else None)"

definition dec_float :: "string \<Rightarrow> rat option" where
  "dec_float s =
     (let ip = takeWhile (\<lambda>c. c \<noteq> CHR ''.'') s;
          fp = drop (Suc (length ip)) s
      in if ip = [] \<and> fp = [] then None
         else (case (digits_value 0 ip, digits_value 0 fp) of
                 (Some a, Some b) \<Rightarrow> Some (of_nat a + of_nat b / 10 ^ length fp)
               | _ \<Rightarrow> None))"

fun exn_name :: "exn \<Rightarrow> string" where
  "exn_name AttributeError = ''AttributeError''"
| "exn_name TypeError = ''TypeError''"
| "exn_name OverflowError = ''OverflowError''"
| "exn_name IndexError = ''IndexError''"
| "exn_name UnicodeDecodeError = ''UnicodeDecodeError''"

definition demo_ops :: "rat py_ops" where
  "demo_ops =
     \<lparr>float_of_str = dec_float,
      float_of_int = (\<lambda>i. Some (of_int i)),
      float_add = (\<lambda>x y. x + y),
      float_sub = (\<lambda>x y. x - y),
      float_gt_int = (\<lambda>x i. of_int i < x),
      float_is_zero = (\<lambda>x. x = 0),
      sort_other = (\<lambda>xs. Inl TypeError),
      exn_text = exn_name\<rparr>"

text \<open>Two standard surveys and a payload that holds both, older first.\<close>

definition survey_2020 :: "rat json" where
  "survey_2020 =
     JDict [(''surveyType'', JStr ''Standard Survey''),
            (''surveyDate'', JStr ''2020-01-01''),
            (''surveyMethod'', JStr ''Gill net''),
            (''fishCatchSummaries'',
               JList [JDict [(''species'', JStr ''WAE''), (''totalCatch'', JInt 4),
                             (''averageWeight'', JStr ''3.25'')]])]"

definition survey_2022 :: "rat json" where
  "survey_2022 =
     JDict [(''surveyType'', JStr ''Standard Survey''),
            (''surveyDate'', JStr ''2022-06-15''),
            (''fishCatchSummaries'',
               JList [JDict [(''species'', JStr ''NOP''), (''totalCatch'', JInt 7),
                             (''averageWeight'', JStr ''12.5''),
                             (''totalWeight'', JStr ''heavy''),
                             (''quartileWeight'', JStr ''N/A''),
                             (''CPUE'', JStr ''0.5'')],
                      JDict [(''species'', JStr ''YEP''), (''totalCatch'', JInt 3)]])]"

definition payload_two :: "rat json" where
  "payload_two =
     JDict [(''status'', JStr ''SUCCESS''),
            (''result'', JDict [(''surveys'', JList [survey_2020, survey_2022])])]"

text \<open>A key, and a world with an empty cache at clock value 1000 on a given network.\<close>

definition lake :: string where
  "lake = ''27000100''"

definition world_on :: "(string \<Rightarrow> nat \<Rightarrow> rat outcome) \<Rightarrow> rat world" where
  "world_on n =
     \<lparr>now = 1000, files = (\<lambda>k. None), writable = (\<lambda>k. True), net = n,
      ncalls = (\<lambda>k. 0), slept = []\<rparr>"

text \<open>
  Networks: a timeout, then status 503, then the payload; a connection error on every
  call; status 404 on every call; status 200 with a body that is not JSON on every call;
  the payload on every call.
\<close>

definition flaky_net :: "string \<Rightarrow> nat \<Rightarrow> rat outcome" where
  "flaky_net k i =
     (if i = 0 then Timeout else if i = 1 then Response 503 None
      else Response 200 (Some payload_two))"

definition down_net :: "string \<Rightarrow> nat \<Rightarrow> rat outcome" where
  "down_net k i = RequestError"

definition missing_net :: "string \<Rightarrow> nat \<Rightarrow> rat outcome" where
  "missing_net k i = Response 404 None"


definition good_net :: "string \<Rightarrow> nat \<Rightarrow> rat outcome" where
  "good_net k i = Response 200 (Some payload_two)"

text \<open>The keys of a returned summary, in order; the field of a document under a key.\<close>

definition summary_keys :: "exn + 'f json \<Rightarrow> string list" where
  "summary_keys r = (case r of Inr (JDict d) \<Rightarrow> map fst d | _ \<Rightarrow> [])"

text \<open>
  A world whose cache holds, for the key, a ten-second-old file whose bytes are not
  text; a world in which no cache file can be written.
\<close>

definition world_corrupt :: "rat world" where
  "world_corrupt = (world_on good_net)\<lparr>files := (\<lambda>k. if k = lake then Some (990, Undecodable) else None)\<rparr>"

definition world_readonly :: "(string \<Rightarrow> nat \<Rightarrow> rat outcome) \<Rightarrow> rat world" where
  "world_readonly n = (world_on n)\<lparr>writable := (\<lambda>k. False)\<rparr>"

definition field :: "'f json \<Rightarrow> string \<Rightarrow> 'f json" where
  "field x k = (case x of JDict d \<Rightarrow> dict_get d k JNull | _ \<Rightarrow> JNull)"

text \<open>The five keys of the dict of lines 104-110.\<close>

definition base_keys :: "string list" where
  "base_keys = [''survey_date'', ''survey_method'', ''survey_type'', ''fish_species'',
                ''total_fish_caught'']"

text \<open>
  Payloads: one whose only catch entry has a word as its count; one without the
  \<^verbatim>\<open>result\<close> key; one whose \<^verbatim>\<open>result\<close> is null.
\<close>

definition fields_bad_count :: "(string \<times> rat json) list" where
  "fields_bad_count =
     [(''result'',
        JDict [(''surveys'',
          JList [JDict [(''surveyType'', JStr ''Standard Survey''),
                        (''surveyDate'', JStr ''2021-05-05''),
                        (''fishCatchSummaries'',
                           JList [JDict [(''species'', JStr ''WAE''),
                                         (''totalCatch'', JStr ''many'')]])]])])]"

definition fields_no_result :: "(string \<times> rat json) list" where
  "fields_no_result = [(''status'', JStr ''ERROR'')]"

definition fields_null_result :: "(string \<times> rat json) list" where
  "fields_null_result = [(''status'', JStr ''SUCCESS''), (''result'', JNull)]"











text \<open>
  A value is numeric-or-null; a weight statistic of a species entry; the elements of a
  list document; a catch entry whose count is an int (a missing count is 0), and that
  count.
\<close>

fun num_or_null :: "'f json \<Rightarrow> bool" where
  "num_or_null JNull = True"
| "num_or_null (JFloat x) = True"
| "num_or_null x = False"

definition weight_stat :: "'f json \<Rightarrow> string \<Rightarrow> 'f json" where
  "weight_stat sp k = field (field sp ''weight_stats'') k"

fun elements :: "'f json \<Rightarrow> 'f json list" where
  "elements (JList xs) = xs"
| "elements x = []"

fun int_counted :: "'f json \<Rightarrow> bool" where
  "int_counted (JDict d) = (case dict_get d ''totalCatch'' (JInt 0) of JInt i \<Rightarrow> True | _ \<Rightarrow> False)"
| "int_counted x = False"

fun int_count :: "'f json \<Rightarrow> int" where
  "int_count (JDict d) = (case dict_get d ''totalCatch'' (JInt 0) of JInt i \<Rightarrow> i | _ \<Rightarrow> 0)"
| "int_count x = 0"

text \<open>
  The count of a catch entry as the module reads it, and the sum of a list of counts as
  Python adds them, from the left, starting at \<open>t\<close>.
\<close>

fun entry_count :: "'f json \<Rightarrow> 'f json" where
  "entry_count (JDict d) = dict_get d ''totalCatch'' (JInt 0)"
| "entry_count x = JNull"

fun py_sum :: "'f py_ops \<Rightarrow> 'f json \<Rightarrow> 'f json list \<Rightarrow> exn + 'f json" where
  "py_sum ops t [] = Inr t"
| "py_sum ops t (c # cs) =
     (case py_add ops t c of Inl e \<Rightarrow> Inl e | Inr t' \<Rightarrow> py_sum ops t' cs)"

text \<open>What the module makes of one catch entry, as a relation between entry and result.\<close>

definition entry_mapped :: "'f py_ops \<Rightarrow> 'f json \<Rightarrow> 'f json \<Rightarrow> bool" where
  "entry_mapped ops c sp =
     (case c of
        JDict d \<Rightarrow>
          coerce_float ops (dict_get d ''averageWeight'' JNull) = Inr (weight_stat sp ''average'')
        \<and> coerce_float ops (dict_get d ''totalWeight'' JNull) = Inr (weight_stat sp ''total'')
        \<and> coerce_float ops (dict_get d ''CPUE'' JNull) = Inr (field sp ''cpue'')
        \<and> num_or_null (weight_stat sp ''average'')
        \<and> num_or_null (weight_stat sp ''total'')
        \<and> num_or_null (field sp ''cpue'')
        \<and> weight_stat sp ''quartile'' = dict_get d ''quartileWeight'' JNull
        \<and> field sp ''count'' = dict_get d ''totalCatch'' (JInt 0)
      | _ \<Rightarrow> False)"

text \<open>A second key.\<close>

definition lake2 :: string where
  "lake2 = ''27000200''"

section \<open>The retry loop\<close>

declare fetch_attempts.simps [simp del]

lemma fetch_attempts_permanent:
  assumes "attempt < max_retries"
    and "(\<exists>body. net w k (ncalls w k) = Response 404 body)
         \<or> net w k (ncalls w k) = Response 200 None"
  shows "fetch_attempts max_retries k attempt w = (JNull, count_call k w)"
  using assms by (subst fetch_attempts.simps) auto

lemma fetch_attempts_success:
  assumes "attempt < max_retries" and "net w k (ncalls w k) = Response 200 (Some data)"
  shows "fetch_attempts max_retries k attempt w = (data, count_call k w)"
  using assms by (subst fetch_attempts.simps) auto

lemma fetch_attempts_transient_last:
  assumes "Suc attempt = max_retries" and "is_transient (net w k (ncalls w k))"
  shows "fetch_attempts max_retries k attempt w = (JNull, count_call k w)"
  using assms
  by (subst fetch_attempts.simps) (auto simp: is_transient_def split: outcome.splits)

lemma fetch_attempts_transient_retry:
  assumes "Suc attempt < max_retries" and "is_transient (net w k (ncalls w k))"
  shows "fetch_attempts max_retries k attempt w =
           fetch_attempts max_retries k (Suc attempt)
             (sleep (Backoff (backoff_secs (net w k (ncalls w k)))) (count_call k w))"
  using assms
  by (subst fetch_attempts.simps)
     (auto simp: is_transient_def backoff_secs_def split: outcome.splits)

lemma net_after [simp]: "net (sleep p (count_call k w)) = net w"
  by (simp add: sleep_def count_call_def)

lemma ncalls_after [simp]: "ncalls (sleep p (count_call k w)) k = Suc (ncalls w k)"
  by (simp add: sleep_def count_call_def)

lemma ncalls_count_call [simp]: "ncalls (count_call k w) k = Suc (ncalls w k)"
  by (simp add: count_call_def)

lemma slept_count_call [simp]: "slept (count_call k w) = slept w"
  by (simp add: count_call_def)

lemma slept_sleep [simp]: "slept (sleep p w) = p # slept w"
  by (simp add: sleep_def)

text \<open>
  C4. With \<^verbatim>\<open>MAX_RETRIES = 3\<close>: when the first two transport calls for a key fail
  transiently and the third answers 200 with a decodable body, the fetch returns that
  payload after exactly three transport calls; when the third fails transiently too, the
  fetch returns \<^verbatim>\<open>None\<close> after exactly \<^verbatim>\<open>MAX_RETRIES\<close> transport calls. In both cases it
  sleeps once after each of the first two failures and not after the third call: two
  seconds after a timeout, one second after any other transient failure.
\<close>

theorem fetch_retry_policy:
  assumes t0: "is_transient (net w k (ncalls w k))"
    and t1: "is_transient (net w k (ncalls w k + 1))"
  shows "(net w k (ncalls w k + 2) = Response 200 (Some payload) \<longrightarrow>
            fst (fetch_fish_survey_data k w) = payload
          \<and> ncalls (snd (fetch_fish_survey_data k w)) k = ncalls w k + 3
          \<and> slept (snd (fetch_fish_survey_data k w)) =
              Backoff (backoff_secs (net w k (ncalls w k + 1)))
                # Backoff (backoff_secs (net w k (ncalls w k))) # slept w)
       \<and> (is_transient (net w k (ncalls w k + 2)) \<longrightarrow>
            fst (fetch_fish_survey_data k w) = JNull
          \<and> ncalls (snd (fetch_fish_survey_data k w)) k = ncalls w k + MAX_RETRIES
          \<and> slept (snd (fetch_fish_survey_data k w)) =
              Backoff (backoff_secs (net w k (ncalls w k + 1)))
                # Backoff (backoff_secs (net w k (ncalls w k))) # slept w)"
proof -
  let ?w1 = "sleep (Backoff (backoff_secs (net w k (ncalls w k)))) (count_call k w)"
  let ?w2 = "sleep (Backoff (backoff_secs (net w k (ncalls w k + 1)))) (count_call k ?w1)"
  have s1: "fetch_fish_survey_data k w = fetch_attempts 3 k (Suc 0) ?w1"
    unfolding fetch_fish_survey_data_def MAX_RETRIES_def
    using t0 by (simp add: fetch_attempts_transient_retry)
  have s2: "fetch_attempts 3 k (Suc 0) ?w1 = fetch_attempts 3 k (Suc (Suc 0)) ?w2"
    using t1 by (simp add: fetch_attempts_transient_retry)
  have ok: "fetch_attempts 3 k (Suc (Suc 0)) ?w2 = (payload, count_call k ?w2)"
    if "net w k (ncalls w k + 2) = Response 200 (Some payload)"
    using that by (intro fetch_attempts_success) simp_all
  have ko: "fetch_attempts 3 k (Suc (Suc 0)) ?w2 = (JNull, count_call k ?w2)"
    if "is_transient (net w k (ncalls w k + 2))"
    using that by (intro fetch_attempts_transient_last) simp_all
  show ?thesis
    using ok ko by (auto simp: s1 s2 MAX_RETRIES_def)
qed

theorem fetch_retry_policy_witness:
  "fst (fetch_fish_survey_data lake (world_on flaky_net)) = payload_two
   \<and> ncalls (snd (fetch_fish_survey_data lake (world_on flaky_net))) lake = 3
   \<and> slept (snd (fetch_fish_survey_data lake (world_on flaky_net))) = [Backoff 1, Backoff 2]
   \<and> fst (fetch_fish_survey_data lake (world_on down_net)) = JNull
   \<and> ncalls (snd (fetch_fish_survey_data lake (world_on down_net))) lake = 3
   \<and> slept (snd (fetch_fish_survey_data lake (world_on down_net))) = [Backoff 1, Backoff 1]"
  using fetch_retry_policy [of "world_on flaky_net" lake payload_two]
    fetch_retry_policy [of "world_on down_net" lake JNull]
  by (simp add: world_on_def flaky_net_def down_net_def is_transient_def backoff_secs_def
      MAX_RETRIES_def)

lemma fetch_attempts_frame:
  "now (snd (fetch_attempts m k a w)) = now w
   \<and> files (snd (fetch_attempts m k a w)) = files w
   \<and> writable (snd (fetch_attempts m k a w)) = writable w
   \<and> net (snd (fetch_attempts m k a w)) = net w"
proof (induction m k a w rule: fetch_attempts.induct)
  case (1 m k a w)
  show ?case
    by (subst (1 2 3 4) fetch_attempts.simps)
       (use 1 in \<open>auto simp: sleep_def count_call_def split: outcome.splits option.splits\<close>)
qed





lemma fetch_fish_survey_data_frame:
  "now (snd (fetch_fish_survey_data k w)) = now w"
  "files (snd (fetch_fish_survey_data k w)) = files w"
  "writable (snd (fetch_fish_survey_data k w)) = writable w"
  "net (snd (fetch_fish_survey_data k w)) = net w"
  by (simp_all add: fetch_fish_survey_data_def fetch_attempts_frame)

lemma load_from_cache_hit:
  assumes "files w k = Some (mtime, Document r)"
    and "\<not> float_gt_int ops (float_sub ops (now w) mtime) (24 * 60 * 60)"
  shows "load_from_cache ops w k = Inr r"
  using assms by (simp add: load_from_cache_def)

lemma load_from_cache_found:
  assumes "load_from_cache ops w k = Inr r" and "r \<noteq> JNull"
  shows "\<exists>mtime. files w k = Some (mtime, Document r)"
  using assms
  by (auto simp: load_from_cache_def split: option.splits prod.splits if_splits content.splits)

lemma fetch_fish_survey_data_frame_eq:
  assumes "fetch_fish_survey_data k w = (raw, w')"
  shows "now w' = now w" and "files w' = files w" and "writable w' = writable w"
    and "net w' = net w"
  using fetch_fish_survey_data_frame [of k w] assms by simp_all

lemma fetch_and_store_result:
  assumes "fetch_and_store ops k True w = (r, w1)"
  shows "r \<noteq> JNull"
    and "writable w k \<Longrightarrow> files w1 k = Some (now w, Document r)"
    and "\<not> writable w k \<Longrightarrow> files w1 = files w"
proof -
  obtain raw w' where f: "fetch_fish_survey_data k w = (raw, w')"
    by (cases "fetch_fish_survey_data k w")
  note fr = fetch_fish_survey_data_frame_eq [OF f]
  from assms f show "r \<noteq> JNull"
    by (auto simp: fetch_and_store_def default_data_def Let_def split: if_splits)
  from assms f fr show "writable w k \<Longrightarrow> files w1 k = Some (now w, Document r)"
    by (auto simp: fetch_and_store_def save_to_cache_def default_data_def Let_def
        split: if_splits)
  from assms f fr show "\<not> writable w k \<Longrightarrow> files w1 = files w"
    by (auto simp: fetch_and_store_def save_to_cache_def default_data_def Let_def
        split: if_splits)
qed

lemma get_fish_survey_summary_cached:
  assumes "files w k = Some (mtime, Document r)" and "r \<noteq> JNull"
    and "\<not> float_gt_int ops (float_sub ops (now w) mtime) (24 * 60 * 60)"
  shows "get_fish_survey_summary ops k True w = (Inr r, w)"
  using assms by (simp add: get_fish_survey_summary_def load_from_cache_hit)

text \<open>
  C7, as amended. With caching enabled, when a resolution of a key returns a summary and
  the cache file of the key can be written, a second resolution of the same key at any
  clock value at which the entry is at most 24 hours old returns the identical summary
  and leaves the world as it is: no transport call, no sleep, no write.
\<close>

theorem cache_hit_idempotent:
  assumes first: "get_fish_survey_summary ops k True w = (Inr r, w1)"
    and wr: "writable w k"
    and fresh: "fresh_at ops w1 k t"
  shows "get_fish_survey_summary ops k True (w1\<lparr>now := t\<rparr>) = (Inr r, w1\<lparr>now := t\<rparr>)"
proof -
  have "\<exists>mtime. files w1 k = Some (mtime, Document r) \<and> r \<noteq> JNull"
  proof (cases "load_from_cache ops w k")
    case (Inl e)
    with first show ?thesis by (simp add: get_fish_survey_summary_def)
  next
    case (Inr c)
    show ?thesis
    proof (cases "c = JNull")
      case True
      with Inr first have "fetch_and_store ops k True w = (r, w1)"
        by (auto simp: get_fish_survey_summary_def split: prod.splits)
      with wr show ?thesis
        using fetch_and_store_result(1,2) by blast
    next
      case False
      with Inr first have "r = c" "w1 = w"
        by (auto simp: get_fish_survey_summary_def)
      with Inr False show ?thesis
        using load_from_cache_found by blast
    qed
  qed
  then obtain mtime where f: "files w1 k = Some (mtime, Document r)" and nn: "r \<noteq> JNull"
    by blast
  from fresh f have "\<not> float_gt_int ops (float_sub ops t mtime) (24 * 60 * 60)"
    by (simp add: fresh_at_def)
  with f nn show ?thesis
    by (intro get_fish_survey_summary_cached [where mtime = mtime]) simp_all
qed

lemma fetch_good_net:
  "fetch_fish_survey_data lake (world_on good_net) = (payload_two, count_call lake (world_on good_net))"
  unfolding fetch_fish_survey_data_def MAX_RETRIES_def
  by (intro fetch_attempts_success) (simp_all add: world_on_def good_net_def)

lemma fetch_good_net_readonly:
  "fetch_fish_survey_data lake (world_readonly good_net) = (payload_two, count_call lake (world_readonly good_net))"
  unfolding fetch_fish_survey_data_def MAX_RETRIES_def
  by (intro fetch_attempts_success) (simp_all add: world_readonly_def world_on_def good_net_def)

lemma payload_two_not_null: "payload_two \<noteq> JNull"
  by (simp add: payload_two_def)

lemma get_fish_survey_summary_miss:
  assumes "load_from_cache ops w k = Inr JNull"
  shows "get_fish_survey_summary ops k True w =
           (Inr (fst (fetch_and_store ops k True w)), snd (fetch_and_store ops k True w))"
  using assms by (simp add: get_fish_survey_summary_def split: prod.splits)

lemma fetch_and_store_readonly:
  assumes "\<not> writable w k"
  shows "snd (fetch_and_store ops k True w) = snd (fetch_fish_survey_data k w)"
proof -
  obtain raw w' where f: "fetch_fish_survey_data k w = (raw, w')"
    by (cases "fetch_fish_survey_data k w")
  from fetch_fish_survey_data_frame_eq(3) [OF f] assms have "\<not> writable w' k"
    by simp
  with f show ?thesis
    by (simp add: fetch_and_store_def save_to_cache_def Let_def)
qed

lemma load_from_cache_no_file:
  assumes "files w k = None"
  shows "load_from_cache ops w k = Inr JNull"
  using assms by (simp add: load_from_cache_def)

text \<open>
  C7 as stated fails when the cache file cannot be written: the write error is logged
  and swallowed (lines 456-461), no entry exists afterwards, and a second resolution at
  the same clock value makes a transport call of its own.
\<close>

theorem refetch_when_write_fails:
  "ncalls (snd (get_fish_survey_summary demo_ops lake True (world_readonly good_net))) lake = 1
   \<and> ncalls (snd (get_fish_survey_summary demo_ops lake True
        (snd (get_fish_survey_summary demo_ops lake True (world_readonly good_net))))) lake = 2"
proof -
  let ?w = "world_readonly good_net"
  let ?w1 = "count_call lake ?w"
  have ro: "\<not> writable ?w lake" "\<not> writable ?w1 lake"
    by (simp_all add: world_readonly_def world_on_def count_call_def)
  have nf: "files ?w lake = None" "files ?w1 lake = None"
    by (simp_all add: world_readonly_def world_on_def count_call_def)
  have f1: "fetch_fish_survey_data lake ?w = (payload_two, ?w1)"
    unfolding fetch_fish_survey_data_def MAX_RETRIES_def
    by (intro fetch_attempts_success)
       (simp_all add: world_readonly_def world_on_def good_net_def)
  have f2: "fetch_fish_survey_data lake ?w1 = (payload_two, count_call lake ?w1)"
    unfolding fetch_fish_survey_data_def MAX_RETRIES_def
    by (intro fetch_attempts_success)
       (simp_all add: world_readonly_def world_on_def good_net_def count_call_def)
  have a: "snd (get_fish_survey_summary demo_ops lake True ?w) = ?w1"
    by (simp add: get_fish_survey_summary_miss [OF load_from_cache_no_file [OF nf(1)]]
        fetch_and_store_readonly [OF ro(1)] f1)
  have b: "snd (get_fish_survey_summary demo_ops lake True ?w1) = count_call lake ?w1"
    by (simp add: get_fish_survey_summary_miss [OF load_from_cache_no_file [OF nf(2)]]
        fetch_and_store_readonly [OF ro(2)] f2)
  have n: "ncalls ?w lake = 0"
    by (simp add: world_readonly_def world_on_def)
  show ?thesis
    by (simp add: a b n)
qed

theorem cache_hit_idempotent_witness:
  "writable (world_on good_net) lake
   \<and> fresh_at demo_ops (snd (get_fish_survey_summary demo_ops lake True (world_on good_net))) lake 5000
   \<and> get_fish_survey_summary demo_ops lake True
        ((snd (get_fish_survey_summary demo_ops lake True (world_on good_net)))\<lparr>now := 5000\<rparr>)
      = (fst (get_fish_survey_summary demo_ops lake True (world_on good_net)),
         (snd (get_fish_survey_summary demo_ops lake True (world_on good_net)))\<lparr>now := 5000\<rparr>)"
proof -
  let ?G = "get_fish_survey_summary demo_ops lake True (world_on good_net)"
  have wr: "writable (world_on good_net) lake"
    by (simp add: world_on_def)
  have miss: "load_from_cache demo_ops (world_on good_net) lake = Inr JNull"
    by (simp add: load_from_cache_def world_on_def)
  obtain r w1 where fs: "fetch_and_store demo_ops lake True (world_on good_net) = (r, w1)"
    by (cases "fetch_and_store demo_ops lake True (world_on good_net)")
  with miss have g: "?G = (Inr r, w1)"
    by (simp add: get_fish_survey_summary_def)
  have f: "files w1 lake = Some (now (world_on good_net), Document r)"
    using fetch_and_store_result(2) [OF fs wr] .
  then have fresh: "fresh_at demo_ops w1 lake 5000"
    by (simp add: fresh_at_def world_on_def demo_ops_def)
  from cache_hit_idempotent [OF g wr fresh] wr fresh show ?thesis
    by (simp add: g)
qed

lemma fetch_and_store_absent:
  assumes "fst (fetch_fish_survey_data k w) = JNull"
  shows "fst (fetch_and_store ops k use_cache w) = default_data k (now w)"
    and "snd (fetch_and_store ops k use_cache w) =
           (if use_cache then save_to_cache (snd (fetch_fish_survey_data k w)) k
                                (default_data k (now w))
            else snd (fetch_fish_survey_data k w))"
proof -
  obtain raw w' where f: "fetch_fish_survey_data k w = (raw, w')"
    by (cases "fetch_fish_survey_data k w")
  note fr = fetch_fish_survey_data_frame_eq [OF f]
  from assms f fr show "fst (fetch_and_store ops k use_cache w) = default_data k (now w)"
    by (simp add: fetch_and_store_def Let_def)
  from assms f fr show "snd (fetch_and_store ops k use_cache w) =
           (if use_cache then save_to_cache (snd (fetch_fish_survey_data k w)) k
                                (default_data k (now w))
            else snd (fetch_fish_survey_data k w))"
    by (simp add: fetch_and_store_def Let_def)
qed

lemma get_fish_survey_summary_fetches:
  assumes "use_cache \<longrightarrow> load_from_cache ops w k = Inr JNull"
  shows "get_fish_survey_summary ops k use_cache w =
           (Inr (fst (fetch_and_store ops k use_cache w)),
            snd (fetch_and_store ops k use_cache w))"
  using assms by (simp add: get_fish_survey_summary_def split: prod.splits)

text \<open>
  C8, as amended. When the resolution of a key misses the cache (or the cache is
  disabled) and the fetch returns \<^verbatim>\<open>None\<close>, the resolution returns the sentinel: the key,
  null date, method and type, an empty species list, total 0, the clock value as fetch
  timestamp, and \<^verbatim>\<open>no_data_available\<close> true. With the cache disabled no file changes.
  With the cache enabled and the cache file writable, the sentinel becomes the entry of
  the key, and a later resolution at any clock value at which the entry is at most 24
  hours old returns the sentinel again and leaves the world as it is, transport calls
  included.
\<close>

theorem sentinel_on_absent_fetch:
  assumes miss: "use_cache \<longrightarrow> load_from_cache ops w k = Inr JNull"
    and absent: "fst (fetch_fish_survey_data k w) = JNull"
  shows "fst (get_fish_survey_summary ops k use_cache w) = Inr (default_data k (now w))
       \<and> field (default_data k (now w)) ''fish_species'' = JList []
       \<and> field (default_data k (now w)) ''total_fish_caught'' = JInt 0
       \<and> field (default_data k (now w)) ''fetch_timestamp'' = JFloat (now w)
       \<and> field (default_data k (now w)) ''no_data_available'' = JBool True
       \<and> (\<not> use_cache \<longrightarrow> files (snd (get_fish_survey_summary ops k use_cache w)) = files w)
       \<and> (use_cache \<and> writable w k \<longrightarrow>
            files (snd (get_fish_survey_summary ops k use_cache w)) k
              = Some (now w, Document (default_data k (now w)))
          \<and> (\<forall>t. fresh_at ops (snd (get_fish_survey_summary ops k use_cache w)) k t \<longrightarrow>
                get_fish_survey_summary ops k True
                  ((snd (get_fish_survey_summary ops k use_cache w))\<lparr>now := t\<rparr>)
                = (Inr (default_data k (now w)),
                   (snd (get_fish_survey_summary ops k use_cache w))\<lparr>now := t\<rparr>)))"
proof -
  let ?G = "get_fish_survey_summary ops k use_cache w"
  let ?s = "default_data k (now w)"
  have g: "?G = (Inr ?s, snd (fetch_and_store ops k use_cache w))"
    by (simp add: get_fish_survey_summary_fetches [OF miss] fetch_and_store_absent(1) [OF absent])
  have fields: "field ?s ''fish_species'' = JList []" "field ?s ''total_fish_caught'' = JInt 0"
    "field ?s ''fetch_timestamp'' = JFloat (now w)" "field ?s ''no_data_available'' = JBool True"
    by (simp_all add: field_def default_data_def dict_get_def)
  have sg: "snd ?G =
           (if use_cache then save_to_cache (snd (fetch_fish_survey_data k w)) k ?s
            else snd (fetch_fish_survey_data k w))"
    by (simp add: g fetch_and_store_absent(2) [OF absent])
  have nocache: "files (snd ?G) = files w" if "\<not> use_cache"
    unfolding sg using that by (simp add: fetch_fish_survey_data_frame)
  have stored: "files (snd ?G) k = Some (now w, Document ?s)" if "use_cache" "writable w k"
    unfolding sg using that
    by (simp add: save_to_cache_def fetch_fish_survey_data_frame default_data_def)
  have again: "get_fish_survey_summary ops k True ((snd ?G)\<lparr>now := t\<rparr>)
                 = (Inr ?s, (snd ?G)\<lparr>now := t\<rparr>)"
    if "use_cache" "writable w k" "fresh_at ops (snd ?G) k t" for t
  proof -
    from that(3) stored [OF that(1,2)]
    have "\<not> float_gt_int ops (float_sub ops t (now w)) (24 * 60 * 60)"
      by (simp add: fresh_at_def)
    with stored [OF that(1,2)] show ?thesis
      by (intro get_fish_survey_summary_cached [where mtime = "now w"])
         (simp_all add: default_data_def)
  qed
  have "fst ?G = Inr ?s"
    by (simp add: g)
  with fields nocache stored again show ?thesis
    by blast
qed

text \<open>
  C8 as stated fails when the cache file cannot be written: the sentinel is returned but
  not persisted, and the next resolution at the same clock value calls the transport
  again.
\<close>

theorem sentinel_not_persisted_when_write_fails:
  "fst (get_fish_survey_summary demo_ops lake True (world_readonly missing_net))
     = Inr (default_data lake 1000)
   \<and> ncalls (snd (get_fish_survey_summary demo_ops lake True (world_readonly missing_net))) lake = 1
   \<and> ncalls (snd (get_fish_survey_summary demo_ops lake True
        (snd (get_fish_survey_summary demo_ops lake True (world_readonly missing_net))))) lake = 2"
proof -
  let ?w = "world_readonly missing_net"
  let ?w1 = "count_call lake ?w"
  have ro: "\<not> writable ?w lake" "\<not> writable ?w1 lake"
    by (simp_all add: world_readonly_def world_on_def count_call_def)
  have nf: "files ?w lake = None" "files ?w1 lake = None"
    by (simp_all add: world_readonly_def world_on_def count_call_def)
  have f1: "fetch_fish_survey_data lake ?w = (JNull, ?w1)"
    unfolding fetch_fish_survey_data_def MAX_RETRIES_def
    by (intro fetch_attempts_permanent)
       (simp_all add: world_readonly_def world_on_def missing_net_def)
  have f2: "fetch_fish_survey_data lake ?w1 = (JNull, count_call lake ?w1)"
    unfolding fetch_fish_survey_data_def MAX_RETRIES_def
    by (intro fetch_attempts_permanent)
       (simp_all add: world_readonly_def world_on_def missing_net_def count_call_def)
  have m: "load_from_cache demo_ops ?w lake = Inr JNull"
    "load_from_cache demo_ops ?w1 lake = Inr JNull"
    using nf by (simp_all add: load_from_cache_no_file)
  have r: "fst (get_fish_survey_summary demo_ops lake True ?w) = Inr (default_data lake 1000)"
    by (simp add: get_fish_survey_summary_miss [OF m(1)] fetch_and_store_absent(1) f1)
       (simp add: world_readonly_def world_on_def)
  have a: "snd (get_fish_survey_summary demo_ops lake True ?w) = ?w1"
    by (simp add: get_fish_survey_summary_miss [OF m(1)] fetch_and_store_readonly [OF ro(1)] f1)
  have b: "snd (get_fish_survey_summary demo_ops lake True ?w1) = count_call lake ?w1"
    by (simp add: get_fish_survey_summary_miss [OF m(2)] fetch_and_store_readonly [OF ro(2)] f2)
  have n: "ncalls ?w lake = 0"
    by (simp add: world_readonly_def world_on_def)
  show ?thesis
    by (simp add: r a b n)
qed

theorem sentinel_on_absent_fetch_witness:
  "fst (get_fish_survey_summary demo_ops lake True (world_on missing_net))
     = Inr (default_data lake 1000)
   \<and> field (default_data lake (1000 :: rat)) ''no_data_available'' = JBool True
   \<and> files (snd (get_fish_survey_summary demo_ops lake True (world_on missing_net))) lake
       = Some (1000, Document (default_data lake 1000))
   \<and> get_fish_survey_summary demo_ops lake True
        ((snd (get_fish_survey_summary demo_ops lake True (world_on missing_net)))\<lparr>now := 5000\<rparr>)
      = (Inr (default_data lake 1000),
         (snd (get_fish_survey_summary demo_ops lake True (world_on missing_net)))\<lparr>now := 5000\<rparr>)"
proof -
  let ?w = "world_on missing_net"
  have miss: "True \<longrightarrow> load_from_cache demo_ops ?w lake = Inr JNull"
    by (simp add: load_from_cache_def world_on_def)
  have "fetch_fish_survey_data lake ?w = (JNull, count_call lake ?w)"
    unfolding fetch_fish_survey_data_def MAX_RETRIES_def
    by (intro fetch_attempts_permanent) (simp_all add: world_on_def missing_net_def)
  then have absent: "fst (fetch_fish_survey_data lake ?w) = JNull"
    by simp
  have wr: "writable ?w lake" and n: "now ?w = 1000"
    by (simp_all add: world_on_def)
  note th = sentinel_on_absent_fetch [OF miss absent, unfolded n]
  from th wr have st:
    "files (snd (get_fish_survey_summary demo_ops lake True ?w)) lake
       = Some (1000, Document (default_data lake 1000))"
    by simp
  then have "fresh_at demo_ops (snd (get_fish_survey_summary demo_ops lake True ?w)) lake 5000"
    by (simp add: fresh_at_def demo_ops_def)
  with th wr show ?thesis
    by simp
qed

text \<open>
  The cache read by cases: no file, an expired file, a failed read and text that is not
  JSON all give \<^verbatim>\<open>None\<close>; a fresh JSON document is returned as it is.
\<close>

lemma load_from_cache_cases:
  "load_from_cache ops w k =
     (case files w k of
        None \<Rightarrow> Inr JNull
      | Some (mtime, c) \<Rightarrow>
          if float_gt_int ops (float_sub ops (now w) mtime) 86400 then Inr JNull
          else if c = Undecodable then Inl UnicodeDecodeError
          else (case c of Document data \<Rightarrow> Inr data | _ \<Rightarrow> Inr JNull))"
  by (simp add: load_from_cache_def split: option.splits content.splits)

text \<open>
  C6. The cache read is meant to return \<^verbatim>\<open>None\<close> for an entry that cannot be read or
  decoded. For a fresh entry whose bytes are not text in the file encoding it raises
  instead: \<^verbatim>\<open>UnicodeDecodeError\<close> is not among the exceptions the function catches.
\<close>

theorem load_from_cache_raises_on_undecodable:
  "load_from_cache demo_ops world_corrupt lake = Inl UnicodeDecodeError"
  by (simp add: load_from_cache_def world_corrupt_def world_on_def demo_ops_def)

lemma summarize_keys:
  assumes "summarize ops sel = Inr x"
  shows "map fst x = base_keys"
  using assms
  by (auto simp: summarize_def base_keys_def Let_def
      split: json.splits if_splits sum.splits prod.splits)

lemma zero_fields_keys: "map fst (zero_fields :: (string \<times> 'f json) list) = base_keys"
  by (simp add: zero_fields_def base_keys_def)

lemma parse_body_keys:
  assumes "parse_body ops raw = Inr x"
  shows "map fst x = base_keys"
  using assms
  by (auto simp: parse_body_def zero_fields_keys summarize_keys
      split: json.splits if_splits sum.splits)

lemma parse_fish_survey_data_keys:
  "map fst (parse_fish_survey_data ops raw) =
     (case parse_body ops raw of Inr x \<Rightarrow> base_keys | Inl e \<Rightarrow> base_keys @ [''parse_error''])"
  by (auto simp: parse_fish_survey_data_def zero_fields_keys parse_body_keys split: sum.splits)

lemma dict_set_keys:
  "map fst (dict_set d k v) = (if k \<in> set (map fst d) then map fst d else map fst d @ [k])"
  by (induction d) force+

text \<open>
  C10. For every dict payload the parser returns a dict and raises nothing. Without the
  key \<^verbatim>\<open>result\<close>, or with a \<^verbatim>\<open>result\<close> that is not a dict, it returns the zero-value dict
  of five keys. When the body of the \<^verbatim>\<open>try\<close> block raises, it returns the zero-value dict
  with the sixth key \<^verbatim>\<open>parse_error\<close> holding the text of the exception; adding a string
  count to the running total is such an exception. When the body raises nothing, the
  result has exactly the five keys.
\<close>

theorem parse_total_with_error_field:
  "(''result'' \<notin> set (map fst d) \<longrightarrow> parse_fish_survey_data ops (JDict d) = zero_fields)
   \<and> ((\<forall>r. dict_get d ''result'' JNull \<noteq> JDict r) \<longrightarrow>
         parse_fish_survey_data ops (JDict d) = zero_fields)
   \<and> (\<forall>e. parse_body ops (JDict d) = Inl e \<longrightarrow>
         parse_fish_survey_data ops (JDict d)
           = zero_fields @ [(''parse_error'', JStr (exn_text ops e))])
   \<and> (\<forall>x. parse_body ops (JDict d) = Inr x \<longrightarrow>
         parse_fish_survey_data ops (JDict d) = x \<and> map fst x = base_keys)
   \<and> (\<forall>s. py_add ops (JInt 0) (JStr s) = Inl TypeError)
   \<and> (map fst (parse_fish_survey_data ops (JDict d)) = base_keys
        \<or> map fst (parse_fish_survey_data ops (JDict d)) = base_keys @ [''parse_error''])"
proof (intro conjI allI impI)
  assume "''result'' \<notin> set (map fst d)"
  then show "parse_fish_survey_data ops (JDict d) = zero_fields"
    by (simp add: parse_fish_survey_data_def parse_body_def)
next
  assume "\<forall>r. dict_get d ''result'' JNull \<noteq> JDict r"
  then show "parse_fish_survey_data ops (JDict d) = zero_fields"
    by (auto simp: parse_fish_survey_data_def parse_body_def split: json.splits)
next
  fix e assume "parse_body ops (JDict d) = Inl e"
  then show "parse_fish_survey_data ops (JDict d)
               = zero_fields @ [(''parse_error'', JStr (exn_text ops e))]"
    by (simp add: parse_fish_survey_data_def)
next
  fix x assume "parse_body ops (JDict d) = Inr x"
  then show "parse_fish_survey_data ops (JDict d) = x" "map fst x = base_keys"
    by (simp_all add: parse_fish_survey_data_def parse_body_keys)
next
  fix s show "py_add ops (JInt 0) (JStr s) = Inl TypeError"
    by (simp add: py_add_def)
next
  show "map fst (parse_fish_survey_data ops (JDict d)) = base_keys
        \<or> map fst (parse_fish_survey_data ops (JDict d)) = base_keys @ [''parse_error'']"
    by (simp add: parse_fish_survey_data_keys split: sum.splits)
qed

lemma parse_body_bad_count: "parse_body demo_ops (JDict fields_bad_count) = Inl TypeError"
  by (simp add: parse_body_def fields_bad_count_def select_survey_def most_recent_def
      sort_by_date_desc_def has_catch_def dict_get_def demo_ops_def summarize_def
      species_info_def py_add_def count_of_def)

theorem parse_total_with_error_field_witness:
  "parse_fish_survey_data demo_ops (JDict fields_no_result) = zero_fields
   \<and> parse_fish_survey_data demo_ops (JDict fields_null_result) = zero_fields
   \<and> parse_fish_survey_data demo_ops (JDict fields_bad_count)
       = zero_fields @ [(''parse_error'', JStr ''TypeError'')]"
proof -
  have nr: "''result'' \<notin> set (map fst fields_no_result)"
    by (simp add: fields_no_result_def)
  have nd: "\<forall>r. dict_get fields_null_result ''result'' JNull \<noteq> JDict r"
    by (simp add: fields_null_result_def dict_get_def)
  have tx: "exn_text demo_ops TypeError = ''TypeError''"
    by (simp add: demo_ops_def)
  from parse_total_with_error_field [of fields_no_result demo_ops] nr
  have a: "parse_fish_survey_data demo_ops (JDict fields_no_result) = zero_fields"
    by blast
  from parse_total_with_error_field [of fields_null_result demo_ops] nd
  have b: "parse_fish_survey_data demo_ops (JDict fields_null_result) = zero_fields"
    by blast
  from parse_total_with_error_field [of fields_bad_count demo_ops] parse_body_bad_count
  have c: "parse_fish_survey_data demo_ops (JDict fields_bad_count)
             = zero_fields @ [(''parse_error'', JStr (exn_text demo_ops TypeError))]"
    by blast
  from a b c tx show ?thesis
    by simp
qed

lemma parse_body_payload_two:
  "\<exists>sp. parse_body demo_ops payload_two =
     Inr [(''survey_date'', JStr ''2022-06-15''), (''survey_method'', JNull),
          (''survey_type'', JStr ''Standard Survey''), (''fish_species'', JList sp),
          (''total_fish_caught'', JInt 10)]"
  by (simp add: parse_body_def payload_two_def
        survey_2020_def survey_2022_def select_survey_def most_recent_def
        sort_by_date_desc_def has_catch_def dict_get_def demo_ops_def summarize_def
        species_info_def py_add_def count_of_def dec_float_def)

text \<open>
  C9, as amended. Every summary that the resolution builds after a cache miss (or with
  the cache disabled) is a dict with the keys \<^verbatim>\<open>survey_date\<close>, \<^verbatim>\<open>survey_method\<close>,
  \<^verbatim>\<open>survey_type\<close>, \<^verbatim>\<open>fish_species\<close>, \<^verbatim>\<open>total_fish_caught\<close>, \<^verbatim>\<open>dowlknum\<close> and
  \<^verbatim>\<open>fetch_timestamp\<close>. The key \<^verbatim>\<open>no_data_available\<close> is present exactly when the fetch
  returned \<^verbatim>\<open>None\<close>, that is, on the sentinel only. With the cache enabled and the cache
  file writable, the dict returned is the dict stored.
\<close>

theorem built_summary_fields:
  assumes miss: "use_cache \<longrightarrow> load_from_cache ops w k = Inr JNull"
  shows "\<exists>d. fst (get_fish_survey_summary ops k use_cache w) = Inr (JDict d)
       \<and> set (base_keys @ [''dowlknum'', ''fetch_timestamp'']) \<subseteq> set (map fst d)
       \<and> (''no_data_available'' \<in> set (map fst d)
            \<longleftrightarrow> fst (fetch_fish_survey_data k w) = JNull)
       \<and> (use_cache \<and> writable w k \<longrightarrow>
            files (snd (get_fish_survey_summary ops k use_cache w)) k
              = Some (now w, Document (JDict d)))"
proof -
  let ?G = "get_fish_survey_summary ops k use_cache w"
  let ?F = "fetch_and_store ops k use_cache w"
  have g: "?G = (Inr (fst ?F), snd ?F)"
    by (rule get_fish_survey_summary_fetches [OF miss])
  obtain raw w' where f: "fetch_fish_survey_data k w = (raw, w')"
    by (cases "fetch_fish_survey_data k w")
  have stored: "files (snd ?F) k = Some (now w, Document (fst ?F))"
    if "use_cache" "writable w k"
  proof -
    from that(1) have "fetch_and_store ops k True w = (fst ?F, snd ?F)"
      by simp
    from fetch_and_store_result(2) [OF this that(2)] show ?thesis .
  qed
  have sg: "snd ?G = snd ?F" and fg: "fst ?G = Inr (fst ?F)"
    by (simp_all only: g fst_conv snd_conv)
  have fin: "\<exists>d. fst ?G = Inr (JDict d)
       \<and> set (base_keys @ [''dowlknum'', ''fetch_timestamp'']) \<subseteq> set (map fst d)
       \<and> (''no_data_available'' \<in> set (map fst d) \<longleftrightarrow> raw = JNull)
       \<and> (use_cache \<and> writable w k \<longrightarrow>
            files (snd ?G) k = Some (now w, Document (JDict d)))"
    if r: "fst ?F = JDict d"
      and k1: "set (base_keys @ [''dowlknum'', ''fetch_timestamp'']) \<subseteq> set (map fst d)"
      and k2: "''no_data_available'' \<in> set (map fst d) \<longleftrightarrow> raw = JNull" for d
  proof (intro exI [of _ d] conjI impI)
    show "fst ?G = Inr (JDict d)"
      by (simp only: fg r)
    show "set (base_keys @ [''dowlknum'', ''fetch_timestamp'']) \<subseteq> set (map fst d)"
      by (rule k1)
    show "''no_data_available'' \<in> set (map fst d) \<longleftrightarrow> raw = JNull"
      by (rule k2)
    assume "use_cache \<and> writable w k"
    then have "files (snd ?F) k = Some (now w, Document (fst ?F))"
      using stored by blast
    then show "files (snd ?G) k = Some (now w, Document (JDict d))"
      by (simp only: sg r)
  qed
  have raw: "fst (fetch_fish_survey_data k w) = raw"
    by (simp add: f)
  show ?thesis
  proof (cases "raw = JNull")
    case True
    with f have r: "fst ?F = default_data k (now w')"
      by (simp add: fetch_and_store_def Let_def)
    show ?thesis
      unfolding raw
      by (rule fin [OF r [unfolded default_data_def]])
         (simp_all add: True base_keys_def)
  next
    case False
    let ?p = "parse_fish_survey_data ops raw"
    let ?d = "dict_set (dict_set ?p ''dowlknum'' (JStr k)) ''fetch_timestamp'' (JFloat (now w'))"
    from False f have r: "fst ?F = JDict ?d"
      by (simp add: fetch_and_store_def Let_def)
    have keys: "map fst ?d = base_keys @ [''dowlknum'', ''fetch_timestamp'']
                \<or> map fst ?d = base_keys @ [''parse_error'', ''dowlknum'', ''fetch_timestamp'']"
      by (simp add: dict_set_keys parse_fish_survey_data_keys base_keys_def split: sum.splits)
    have sub: "set (base_keys @ [''dowlknum'', ''fetch_timestamp'']) \<subseteq> set ks
               \<and> ''no_data_available'' \<notin> set ks"
      if "ks = base_keys @ [''dowlknum'', ''fetch_timestamp'']
          \<or> ks = base_keys @ [''parse_error'', ''dowlknum'', ''fetch_timestamp'']" for ks
      using that by (auto simp: base_keys_def)
    from sub [OF keys]
    have k1: "set (base_keys @ [''dowlknum'', ''fetch_timestamp'']) \<subseteq> set (map fst ?d)"
      and nk: "''no_data_available'' \<notin> set (map fst ?d)"
      by blast+
    from nk False have k2: "''no_data_available'' \<in> set (map fst ?d) \<longleftrightarrow> raw = JNull"
      by blast
    show ?thesis
      unfolding raw by (rule fin [OF r k1 k2])
  qed
qed

text \<open>
  C9 as stated fails on a summary built from a fetched payload: it has seven keys, and
  \<^verbatim>\<open>no_data_available\<close> is not among them.
\<close>

theorem fetched_summary_has_no_flag:
  "summary_keys (fst (get_fish_survey_summary demo_ops lake True (world_on good_net)))
     = [''survey_date'', ''survey_method'', ''survey_type'', ''fish_species'',
        ''total_fish_caught'', ''dowlknum'', ''fetch_timestamp'']"
proof -
  have m: "load_from_cache demo_ops (world_on good_net) lake = Inr JNull"
    by (simp add: load_from_cache_def world_on_def)
  obtain sp where p: "parse_body demo_ops payload_two =
     Inr [(''survey_date'', JStr ''2022-06-15''), (''survey_method'', JNull),
          (''survey_type'', JStr ''Standard Survey''), (''fish_species'', JList sp),
          (''total_fish_caught'', JInt 10)]"
    using parse_body_payload_two by blast
  show ?thesis
    by (simp add: get_fish_survey_summary_miss [OF m] fetch_and_store_def fetch_good_net
        payload_two_not_null Let_def parse_fish_survey_data_def p summary_keys_def)
qed

theorem built_summary_fields_witness:
  "\<exists>d. fst (get_fish_survey_summary demo_ops lake True (world_on missing_net)) = Inr (JDict d)
       \<and> set (base_keys @ [''dowlknum'', ''fetch_timestamp'']) \<subseteq> set (map fst d)
       \<and> ''no_data_available'' \<in> set (map fst d)
       \<and> files (snd (get_fish_survey_summary demo_ops lake True (world_on missing_net))) lake
              = Some (1000, Document (JDict d))"
proof -
  let ?w = "world_on missing_net"
  have miss: "True \<longrightarrow> load_from_cache demo_ops ?w lake = Inr JNull"
    by (simp add: load_from_cache_def world_on_def)
  have "fetch_fish_survey_data lake ?w = (JNull, count_call lake ?w)"
    unfolding fetch_fish_survey_data_def MAX_RETRIES_def
    by (intro fetch_attempts_permanent) (simp_all add: world_on_def missing_net_def)
  then have absent: "fst (fetch_fish_survey_data lake ?w) = JNull"
    by simp
  have wr: "writable ?w lake" and n: "now ?w = 1000"
    by (simp_all add: world_on_def)
  from built_summary_fields [OF miss] absent wr n show ?thesis
    by simp
qed















lemma coerce_float_num_or_null:
  assumes "coerce_float ops v = Inr x"
  shows "num_or_null x"
  using assms by (cases v) (auto split: option.splits)

lemma species_info_mapped:
  assumes "species_info ops c = Inr sp"
  shows "entry_mapped ops c sp"
proof -
  from assms obtain d where d: "c = JDict d"
    by (cases c) (auto simp: species_info_def)
  from assms d obtain avg tot cpue where
    a: "coerce_float ops (dict_get d ''averageWeight'' JNull) = Inr avg"
    and t: "coerce_float ops (dict_get d ''totalWeight'' JNull) = Inr tot"
    and c: "coerce_float ops (dict_get d ''CPUE'' JNull) = Inr cpue"
    by (auto simp: species_info_def split: sum.splits)
  from assms d a t c have sp: "sp = JDict
       [(''species_name'', dict_get d ''species'' (JStr ''Unknown'')),
        (''count'', dict_get d ''totalCatch'' (JInt 0)),
        (''length_stats'',
           JDict [(''average'', JNull), (''minimum'', JNull), (''maximum'', JNull)]),
        (''weight_stats'',
           JDict [(''average'', avg), (''total'', tot),
                  (''quartile'', dict_get d ''quartileWeight'' JNull)]),
        (''gear'', dict_get d ''gear'' (JStr ''Unknown'')),
        (''cpue'', cpue)]"
    by (simp add: species_info_def)
  have f: "weight_stat sp ''average'' = avg" "weight_stat sp ''total'' = tot"
    "field sp ''cpue'' = cpue"
    "weight_stat sp ''quartile'' = dict_get d ''quartileWeight'' JNull"
    "field sp ''count'' = dict_get d ''totalCatch'' (JInt 0)"
    unfolding sp by (simp_all add: weight_stat_def field_def dict_get_def)
  show ?thesis
    unfolding entry_mapped_def d
    using a t c coerce_float_num_or_null [OF a] coerce_float_num_or_null [OF t]
      coerce_float_num_or_null [OF c]
    by (simp add: f)
qed

lemma count_of_field: "count_of sp = field sp ''count''"
  by (simp add: count_of_def field_def)

lemma catch_loop_mapped:
  assumes "catch_loop ops acc t entries = Inr (species, total_fish)"
  shows "\<exists>new. species = acc @ new \<and> list_all2 (entry_mapped ops) entries new"
  using assms
proof (induction entries arbitrary: acc t)
  case Nil
  then show ?case by simp
next
  case (Cons c cs)
  from Cons.prems obtain sp t' where sp: "species_info ops c = Inr sp"
    and "py_add ops t (count_of sp) = Inr t'"
    and rest: "catch_loop ops (acc @ [sp]) t' cs = Inr (species, total_fish)"
    by (auto split: sum.splits)
  from Cons.IH [OF rest] obtain new where "species = (acc @ [sp]) @ new"
    and "list_all2 (entry_mapped ops) cs new"
    by blast
  with species_info_mapped [OF sp] show ?case
    by (intro exI [of _ "sp # new"]) simp
qed

lemma catch_loop_total:
  assumes "catch_loop ops acc (JInt n) entries = Inr (species, total_fish)"
    and "list_all int_counted entries"
  shows "total_fish = JInt (n + sum_list (map int_count entries))"
  using assms
proof (induction entries arbitrary: acc n)
  case Nil
  then show ?case by simp
next
  case (Cons c cs)
  from Cons.prems(2) obtain d i where d: "c = JDict d"
    and i: "dict_get d ''totalCatch'' (JInt 0) = JInt i"
    by (cases c) (auto split: json.splits)
  from Cons.prems(1) obtain sp t' where sp: "species_info ops c = Inr sp"
    and add: "py_add ops (JInt n) (count_of sp) = Inr t'"
    and rest: "catch_loop ops (acc @ [sp]) t' cs = Inr (species, total_fish)"
    by (auto split: sum.splits)
  from species_info_mapped [OF sp] d i have "count_of sp = JInt i"
    by (simp add: entry_mapped_def count_of_field)
  with add have "t' = JInt (n + i)"
    by (simp add: py_add_def)
  with Cons.IH [of "acc @ [sp]" "n + i"] rest Cons.prems(2) d i show ?case
    by simp
qed

lemma catch_loop_sum:
  assumes "catch_loop ops acc t entries = Inr (species, total_fish)"
  shows "py_sum ops t (map entry_count entries) = Inr total_fish"
  using assms
proof (induction entries arbitrary: acc t)
  case Nil
  then show ?case by simp
next
  case (Cons c cs)
  from Cons.prems obtain sp t' where sp: "species_info ops c = Inr sp"
    and add: "py_add ops t (count_of sp) = Inr t'"
    and rest: "catch_loop ops (acc @ [sp]) t' cs = Inr (species, total_fish)"
    by (auto split: sum.splits)
  from species_info_mapped [OF sp] have "count_of sp = entry_count c"
    by (cases c) (simp_all add: entry_mapped_def count_of_field)
  with add Cons.IH [OF rest] show ?case
    by simp
qed

lemma select_survey_Nil: "select_survey ops [] = Inr JNull"
  by (simp add: select_survey_def most_recent_def)

lemma dict_get_present:
  assumes "dict_get d k dflt = v" and "v \<noteq> dflt"
  shows "k \<in> set (map fst d)" and "d \<noteq> []"
  using assms
  by (auto simp: dict_get_def split: option.splits dest: map_of_SomeD intro: rev_image_eqI)

text \<open>
  C3, as amended. For the selected record, when parsing raises nothing, the species list
  has one entry per catch entry, in order. In each, the average weight, the total weight
  and the CPUE are \<^verbatim>\<open>float(value)\<close> of the entry's value, or null when the value is missing,
  null, or not convertible; a string converts exactly when \<^verbatim>\<open>float\<close> accepts it. The
  quartile weight is copied as it is, without conversion. \<^verbatim>\<open>total_fish_caught\<close> is the sum,
  as Python adds, of the counts of the catch entries of the selected record alone; when
  every such count is an int, it is their integer sum.
\<close>

theorem species_coercion_and_total:
  assumes res: "dict_get d ''result'' JNull = JDict r"
    and sur: "dict_get r ''surveys'' JNull = JList ss"
    and sel: "select_survey ops ss = Inr (JDict sd)"
    and ent: "dict_get sd ''fishCatchSummaries'' JNull = JList entries"
    and ok: "parse_body ops (JDict d) = Inr x"
  shows "(\<forall>s. coerce_float ops (JStr s)
              = Inr (case float_of_str ops s of None \<Rightarrow> JNull | Some v \<Rightarrow> JFloat v))
       \<and> coerce_float ops JNull = Inr JNull
       \<and> (\<exists>species. dict_get x ''fish_species'' JNull = JList species
            \<and> list_all2 (entry_mapped ops) entries species
            \<and> py_sum ops (JInt 0) (map entry_count entries)
                  = Inr (dict_get x ''total_fish_caught'' JNull)
            \<and> (list_all int_counted entries \<longrightarrow>
                 dict_get x ''total_fish_caught'' JNull
                   = JInt (sum_list (map int_count entries))))"
proof -
  have co: "coerce_float ops (JStr s)
              = Inr (case float_of_str ops s of None \<Rightarrow> JNull | Some v \<Rightarrow> JFloat v)" for s
    by (simp split: option.splits)
  have ne: "ss \<noteq> []"
  proof
    assume "ss = []"
    with sel select_survey_Nil [of ops] show False
      by simp
  qed
  have rk: "''result'' \<in> set (map fst d)" "''surveys'' \<in> set (map fst r)"
    using dict_get_present(1) [OF res] dict_get_present(1) [OF sur] by simp_all
  have ek: "''fishCatchSummaries'' \<in> set (map fst sd)" "sd \<noteq> []"
    using dict_get_present [OF ent] by simp_all
  have body: "parse_body ops (JDict d) = summarize ops (JDict sd)"
    using rk ne ek(2) by (simp add: parse_body_def res sur sel)
  with ok have "summarize ops (JDict sd) = Inr x"
    by simp
  then obtain species total_fish where
    loop: "catch_loop ops [] (JInt 0) entries = Inr (species, total_fish)"
    and x: "x = [(''survey_date'', dict_get sd ''surveyDate'' JNull),
                 (''survey_method'', dict_get sd ''surveyMethod'' JNull),
                 (''survey_type'', dict_get sd ''surveyType'' JNull),
                 (''fish_species'', JList species), (''total_fish_caught'', total_fish)]"
    using ek(1) by (auto simp: summarize_def ent Let_def split: sum.splits)
  from catch_loop_mapped [OF loop] have m: "list_all2 (entry_mapped ops) entries species"
    by simp
  have t: "total_fish = JInt (sum_list (map int_count entries))"
    if "list_all int_counted entries"
    using catch_loop_total [OF loop that] by simp
  have "dict_get x ''fish_species'' JNull = JList species"
    "dict_get x ''total_fish_caught'' JNull = total_fish"
    by (simp_all add: x dict_get_def)
  with m t co catch_loop_sum [OF loop] show ?thesis
    by auto
qed

text \<open>
  C3 as stated fails on the quartile weight: the conversion loop of lines 197-203 runs
  over \<^verbatim>\<open>average\<close> and \<^verbatim>\<open>total\<close> only, so a quartile weight that is a string stays a string.
\<close>

theorem quartile_weight_not_coerced:
  "weight_stat (elements (field (JDict (parse_fish_survey_data demo_ops payload_two))
      ''fish_species'') ! 0) ''quartile'' = JStr ''N/A''
   \<and> \<not> num_or_null (JStr ''N/A'' :: rat json)"
  by (simp add: parse_fish_survey_data_def field_def parse_body_def payload_two_def
        survey_2020_def survey_2022_def select_survey_def most_recent_def
        sort_by_date_desc_def has_catch_def dict_get_def demo_ops_def summarize_def
        species_info_def py_add_def count_of_def dec_float_def weight_stat_def)

theorem species_coercion_and_total_witness:
  "weight_stat (elements (field (JDict (parse_fish_survey_data demo_ops payload_two))
      ''fish_species'') ! 0) ''average'' = JFloat (25 / 2)
   \<and> weight_stat (elements (field (JDict (parse_fish_survey_data demo_ops payload_two))
      ''fish_species'') ! 0) ''total'' = JNull
   \<and> field (elements (field (JDict (parse_fish_survey_data demo_ops payload_two))
      ''fish_species'') ! 0) ''cpue'' = JFloat (1 / 2)
   \<and> field (JDict (parse_fish_survey_data demo_ops payload_two)) ''total_fish_caught''
       = JInt 10"
proof -
  define e0 :: "rat json" where
    "e0 = JDict [(''species'', JStr ''NOP''), (''totalCatch'', JInt 7),
                 (''averageWeight'', JStr ''12.5''), (''totalWeight'', JStr ''heavy''),
                 (''quartileWeight'', JStr ''N/A''), (''CPUE'', JStr ''0.5'')]"
  define e1 :: "rat json" where
    "e1 = JDict [(''species'', JStr ''YEP''), (''totalCatch'', JInt 3)]"
  define sd where
    "sd = [(''surveyType'', JStr ''Standard Survey''), (''surveyDate'', JStr ''2022-06-15''),
           (''fishCatchSummaries'', JList [e0, e1])]"
  define r where "r = [(''surveys'', JList [survey_2020, survey_2022])]"
  define d where "d = [(''status'', JStr ''SUCCESS''), (''result'', JDict r)]"
  have s22: "survey_2022 = JDict sd"
    by (simp add: survey_2022_def sd_def e0_def e1_def)
  have p2: "payload_two = JDict d"
    by (simp add: payload_two_def d_def r_def)
  have res: "dict_get d ''result'' JNull = JDict r"
    and sur: "dict_get r ''surveys'' JNull = JList [survey_2020, survey_2022]"
    and ent: "dict_get sd ''fishCatchSummaries'' JNull = JList [e0, e1]"
    by (simp_all add: d_def r_def sd_def dict_get_def)
  have "select_survey demo_ops [survey_2020, survey_2022] = Inr survey_2022"
    by (simp add: select_survey_def survey_2020_def survey_2022_def most_recent_def
        sort_by_date_desc_def has_catch_def dict_get_def demo_ops_def)
  then have sel: "select_survey demo_ops [survey_2020, survey_2022] = Inr (JDict sd)"
    by (simp only: s22)
  obtain x where ok: "parse_body demo_ops (JDict d) = Inr x"
    using parse_body_payload_two unfolding p2 by blast
  have ic: "list_all int_counted [e0, e1]" and sm: "sum_list (map int_count [e0, e1]) = 10"
    by (simp_all add: e0_def e1_def dict_get_def)
  from species_coercion_and_total [OF res sur sel ent ok] ic sm
  obtain species where fs: "dict_get x ''fish_species'' JNull = JList species"
    and m: "list_all2 (entry_mapped demo_ops) [e0, e1] species"
    and tot: "dict_get x ''total_fish_caught'' JNull = JInt 10"
    by auto
  from m obtain s0 rest where sp: "species = s0 # rest" and m0: "entry_mapped demo_ops e0 s0"
    by (auto simp: list_all2_Cons1)
  have fl: "float_of_str demo_ops ''12.5'' = Some (25 / 2)"
    "float_of_str demo_ops ''heavy'' = None" "float_of_str demo_ops ''0.5'' = Some (1 / 2)"
    by (simp_all add: demo_ops_def dec_float_def)
  from m0 have v: "weight_stat s0 ''average'' = JFloat (25 / 2)"
    "weight_stat s0 ''total'' = JNull" "field s0 ''cpue'' = JFloat (1 / 2)"
    by (simp_all add: entry_mapped_def e0_def dict_get_def fl)
  have P: "parse_fish_survey_data demo_ops payload_two = x"
    by (simp add: parse_fish_survey_data_def p2 ok)
  show ?thesis
    unfolding P using fs tot v by (simp add: field_def sp)
qed

lemma parallel_loop_dom:
  "dom (fst (parallel_loop ops delay use_cache results ks w)) = dom results \<union> set ks"
  by (induction ks arbitrary: results w) (auto split: prod.splits sum.splits)

lemma parallel_loop_other:
  assumes "k \<notin> set ks"
  shows "fst (parallel_loop ops delay use_cache results ks w) k = results k"
  using assms
  by (induction ks arbitrary: results w) (auto split: prod.splits sum.splits)

lemma sequential_loop_dom:
  assumes "sequential_loop ops delay use_cache results ks w = (Inr m, w')"
  shows "dom m = dom results \<union> set ks"
  using assms
  by (induction ks arbitrary: results w) (auto split: prod.splits sum.splits)

lemma schedule_covers:
  assumes "set sched = {0..<length ks}"
  shows "set (map (\<lambda>i. ks ! i) sched) = set ks"
  using assms by (auto simp: in_set_conv_nth)

text \<open>
  In parallel mode the result has exactly one entry per requested key, for every
  schedule that runs the unit of every position, and whatever each unit of work does.
\<close>

lemma parallel_one_entry_per_key:
  assumes "set sched = {0..<length ks}"
  shows "dom (fst (batch_fetch_fish_surveys_parallel ops sched ks delay use_cache w)) = set ks"
    and "distinct ks \<Longrightarrow>
         card (dom (fst (batch_fetch_fish_surveys_parallel ops sched ks delay use_cache w)))
           = length ks"
proof -
  show d: "dom (fst (batch_fetch_fish_surveys_parallel ops sched ks delay use_cache w)) = set ks"
    by (simp add: batch_fetch_fish_surveys_parallel_def parallel_loop_dom
        schedule_covers [OF assms] del: set_map)
  show "distinct ks \<Longrightarrow>
         card (dom (fst (batch_fetch_fish_surveys_parallel ops sched ks delay use_cache w)))
           = length ks"
    by (simp add: d distinct_card)
qed

text \<open>In sequential mode the same holds whenever the loop returns.\<close>

lemma sequential_one_entry_per_key:
  assumes "sequential_loop ops delay use_cache Map.empty ks w = (Inr m, w')"
  shows "dom m = set ks" and "distinct ks \<Longrightarrow> card (dom m) = length ks"
  using sequential_loop_dom [OF assms] by (simp_all add: distinct_card)

text \<open>
  C1. The batch fetch is meant to return one entry per requested key, with \<^verbatim>\<open>None\<close> for a
  key whose resolution failed. The pool of the parallel mode does so. The sequential
  loop has no handler: for the keys \<^verbatim>\<open>27000100\<close> and \<^verbatim>\<open>27000200\<close>, with a cache file of the
  first key whose bytes are not text, the sequential batch raises
  \<^verbatim>\<open>UnicodeDecodeError\<close> and returns no map, while the parallel batch on the same input
  returns a map with both keys, \<^verbatim>\<open>None\<close> under the first.
\<close>

theorem sequential_batch_aborts_on_key_failure:
  "fst (batch_fetch_fish_surveys demo_ops [0, 1] [lake, lake2] (1 / 2) False True world_corrupt)
     = Inl UnicodeDecodeError
   \<and> dom (fst (batch_fetch_fish_surveys_parallel demo_ops [0, 1] [lake, lake2] (1 / 2) True
        world_corrupt)) = {lake, lake2}
   \<and> fst (batch_fetch_fish_surveys_parallel demo_ops [0, 1] [lake, lake2] (1 / 2) True
        world_corrupt) lake = Some JNull"
proof -
  have l: "load_from_cache demo_ops w lake = Inl UnicodeDecodeError"
    if "files w = files world_corrupt" "now w = now world_corrupt" for w
    using that
    by (simp add: load_from_cache_def world_corrupt_def world_on_def demo_ops_def)
  have g: "get_fish_survey_summary demo_ops lake True w = (Inl UnicodeDecodeError, w)"
    if "files w = files world_corrupt" "now w = now world_corrupt" for w
    by (simp add: get_fish_survey_summary_def l [OF that])
  have a: "fst (batch_fetch_fish_surveys demo_ops [0, 1] [lake, lake2] (1 / 2) False True
             world_corrupt) = Inl UnicodeDecodeError"
    by (simp add: batch_fetch_fish_surveys_def g)
  have ne: "lake \<noteq> lake2"
    by (simp add: lake_def lake2_def)
  have sch: "set [0, 1 :: nat] = {0..<length [lake, lake2]}"
    by auto
  have b: "dom (fst (batch_fetch_fish_surveys_parallel demo_ops [0, 1] [lake, lake2] (1 / 2) True
        world_corrupt)) = {lake, lake2}"
    using parallel_one_entry_per_key(1) [OF sch] by simp
  have g': "get_fish_survey_summary demo_ops lake True (sleep p world_corrupt)
              = (Inl UnicodeDecodeError, sleep p world_corrupt)" for p
    by (rule g) (simp_all add: sleep_def)
  have step: "parallel_loop demo_ops (1 / 2) True Map.empty [lake, lake2] world_corrupt
      = parallel_loop demo_ops (1 / 2) True [lake \<mapsto> JNull] [lake2]
          (sleep (Pace (1 / 2)) world_corrupt)"
    by (subst parallel_loop.simps) (simp add: g' del: parallel_loop.simps)
  have c: "fst (batch_fetch_fish_surveys_parallel demo_ops [0, 1] [lake, lake2] (1 / 2) True
        world_corrupt) lake = Some JNull"
    using ne
    by (simp add: batch_fetch_fish_surveys_parallel_def step parallel_loop_other
        del: parallel_loop.simps)
  from a b c show ?thesis
    by simp
qed

end
